theory Spec2Isabelle
  imports Main "HOL-Library.Word"
begin

unbundle bit_operations_syntax

chapter \<open>The Info plane of the server: a shallow embedding\<close>

text \<open>
  The development follows \<^verbatim>\<open>as/src/base/thr_info.c\<close> and \<^verbatim>\<open>as/src/base/ticker.c\<close>.
  Every definition names the C function (and the lines) it embeds.  Log calls
  (\<^verbatim>\<open>cf_info\<close>, \<^verbatim>\<open>cf_warning\<close>, \<^verbatim>\<open>cf_debug\<close>, \<^verbatim>\<open>as_security_log\<close>) write to the
  log only and are left out.  Part I holds the definitions, Part II the proofs.
\<close>

section \<open>Part I: C strings and the characters of the wire format\<close>

text \<open>
  A C string ends at its first NUL byte.  \<open>cstr\<close> is what \<^verbatim>\<open>strlen\<close>, \<^verbatim>\<open>strcmp\<close> and
  \<^verbatim>\<open>cf_dyn_buf_append_string\<close> see of a character array.  The three separators are the
  macros at \<^verbatim>\<open>thr_info.c:144-146\<close>.
\<close>

definition NUL :: char where
  "NUL = CHR 0x00"

definition EOL :: char where
  "EOL = CHR 0x0A"

definition SEP :: char where
  "SEP = CHR 0x09"

definition TREE_SEP :: char where
  "TREE_SEP = CHR ''/''"

definition cstr :: "string \<Rightarrow> string" where
  "cstr s = takeWhile (\<lambda>c. c \<noteq> NUL) s"

text \<open>\<^verbatim>\<open>strncmp(s, lit, n) == 0\<close> for a literal \<open>lit\<close> of length \<open>n\<close>.\<close>

definition strncmp_eq :: "string \<Rightarrow> string \<Rightarrow> bool" where
  "strncmp_eq s lit = (take (length lit) (cstr s) = lit)"

section \<open>The parameter extractor\<close>

text \<open>
  \<^verbatim>\<open>as_info_parameter_get\<close> (\<^verbatim>\<open>thr_info.c:4892-4928\<close>).  The C loop keeps two pointers
  into the parameter string: \<^verbatim>\<open>tok\<close>, the start of the current token, and \<^verbatim>\<open>c\<close>, the
  cursor.  Here \<open>tok\<close> is the text between the two pointers and the last argument is the
  text from the cursor on, so \<^verbatim>\<open>c - tok\<close> is \<open>length tok\<close>.  The result is the triple of the
  return value, the caller's value buffer (as a C string) and \<^verbatim>\<open>*value_len\<close>; the buffer
  and the length are written only on the path that returns 0.
\<close>

fun param_scan :: "string \<Rightarrow> int \<Rightarrow> string \<Rightarrow> string \<Rightarrow> string \<Rightarrow> int \<times> string \<times> int" where
  "param_scan param value_len val tok [] = (- 1, val, value_len)"
| "param_scan param value_len val tok (x # rest) =
    (if x = CHR ''='' then
       (if int (length param) = int (length tok) \<and> tok = param then
          (let v = takeWhile (\<lambda>c. c \<noteq> CHR '';'') rest in
           if value_len \<le> int (length v) then (- 2, val, value_len)
           else (0, v, int (length v)))
        else param_scan param value_len val (tok @ [x]) rest)
     else if x = CHR '';'' then param_scan param value_len val [] rest
     else param_scan param value_len val (tok @ [x]) rest)"

definition as_info_parameter_get :: "string \<Rightarrow> string \<Rightarrow> string \<Rightarrow> int \<Rightarrow> int \<times> string \<times> int" where
  "as_info_parameter_get param_str param val value_len =
     param_scan (cstr param) value_len val [] (cstr param_str)"

text \<open>
  The three outcomes as the header comment of the function lists them: 0 with the value
  copied and the length updated, -1 and -2 with buffer and length as they were.
\<close>

definition param_outcome :: "string \<Rightarrow> int \<Rightarrow> int \<times> string \<times> int \<Rightarrow> bool" where
  "param_outcome val value_len r =
     (case r of (rv, val', len') \<Rightarrow>
        (rv = 0 \<and> len' = int (length val') \<and> len' < value_len) \<or>
        (rv = - 1 \<and> val' = val \<and> len' = value_len) \<or>
        (rv = - 2 \<and> val' = val \<and> len' = value_len))"

text \<open>
  A well-formed \<open>key=value\<close> pair of the request grammar, and a prefix of the parameter
  string (empty, or pairs closed by a semicolon) in which the key does not occur.
\<close>

definition pair_wf :: "string \<Rightarrow> string \<Rightarrow> bool" where
  "pair_wf k v =
     (CHR ''='' \<notin> set k \<and> CHR '';'' \<notin> set k \<and> NUL \<notin> set k \<and>
      CHR '';'' \<notin> set v \<and> NUL \<notin> set v)"

definition prefix_without :: "string \<Rightarrow> string \<Rightarrow> bool" where
  "prefix_without k pre =
     (pre = [] \<or>
      (last pre = CHR '';'' \<and> NUL \<notin> set pre \<and>
       fst (as_info_parameter_get (butlast pre) k [] 0) = - 1))"

definition suffix_ok :: "string \<Rightarrow> bool" where
  "suffix_ok suf = (suf = [] \<or> hd suf = CHR '';'' \<or> hd suf = NUL)"

section \<open>The endpoint registry and the dispatcher\<close>

text \<open>
  The four tables of \<^verbatim>\<open>thr_info.c:114-141\<close> and \<^verbatim>\<open>4373-4376\<close>, each a linked list
  searched from its head.  A handler appends text to the reply and may change the state
  of the server (type \<open>'st\<close>): it is a function from the state to the appended text and
  the new state.  \<open>streq a b\<close> is \<^verbatim>\<open>strcmp(a, b) == 0\<close>.
\<close>

definition streq :: "string \<Rightarrow> string \<Rightarrow> bool" where
  "streq a b = (cstr a = cstr b)"

record info_static =
  s_def :: bool
  s_name :: string
  s_value :: string

record 'st info_dynamic =
  d_def :: bool
  d_name :: string
  value_fn :: "string \<Rightarrow> 'st \<Rightarrow> string \<times> 'st"

record 'st info_tree =
  t_name :: string
  tree_fn :: "string \<Rightarrow> string \<Rightarrow> 'st \<Rightarrow> string \<times> 'st"

datatype as_sec_perm = PERM_NONE | PERM_SINDEX_ADMIN | PERM_UDF_ADMIN | PERM_OTHER

record 'st info_command =
  c_name :: string
  command_fn :: "string \<Rightarrow> string \<Rightarrow> 'st \<Rightarrow> string \<times> 'st"
  required_perm :: as_sec_perm

record 'st registry =
  static_head :: "info_static list"
  dynamic_head :: "'st info_dynamic list"
  tree_head :: "'st info_tree list"
  command_head :: "'st info_command list"

text \<open>
  The security layer is outside these files.  For one connection it is given by the
  result of \<^verbatim>\<open>as_security_check_auth\<close>, the function \<^verbatim>\<open>as_security_check_info_cmd\<close>, and
  the decimal text of each result code (the codes are declared in a header that is not
  part of the sources at hand).
\<close>

datatype sec_result =
  AS_OK | AS_SEC_ERR_NOT_AUTHENTICATED | AS_SEC_ERR_ROLE_VIOLATION | AS_SEC_ERR_OTHER

record security =
  check_auth :: sec_result
  check_info_cmd :: "string \<Rightarrow> string \<Rightarrow> as_sec_perm \<Rightarrow> sec_result"
  result_str :: "sec_result \<Rightarrow> string"

text \<open>\<^verbatim>\<open>append_sec_err_str\<close> (\<^verbatim>\<open>thr_info.c:4341-4370\<close>): the text it appends.\<close>

definition append_sec_err_str :: "security \<Rightarrow> sec_result \<Rightarrow> as_sec_perm \<Rightarrow> string" where
  "append_sec_err_str sec result cmd_perm =
     (case result of
        AS_SEC_ERR_NOT_AUTHENTICATED \<Rightarrow>
          ''ERROR:'' @ result_str sec result @ '':not authenticated''
      | AS_SEC_ERR_ROLE_VIOLATION \<Rightarrow>
          (case cmd_perm of
             PERM_SINDEX_ADMIN \<Rightarrow> ''FAIL:'' @ result_str sec result @ '':role violation''
           | PERM_UDF_ADMIN \<Rightarrow> ''error=role_violation''
           | _ \<Rightarrow> ''ERROR:'' @ result_str sec result @ '':role violation'')
      | _ \<Rightarrow> ''ERROR:'' @ result_str sec result @ '':unexpected security error'')"

text \<open>
  \<^verbatim>\<open>info_all\<close> (\<^verbatim>\<open>thr_info.c:4383-4418\<close>).  The reply under construction is the pair of
  the text appended so far and the state.
\<close>

fun info_all_dynamic :: "'st info_dynamic list \<Rightarrow> string \<times> 'st \<Rightarrow> string \<times> 'st" where
  "info_all_dynamic [] acc = acc"
| "info_all_dynamic (d # ds) (db, st) =
     (if d_def d then
        (case value_fn d (d_name d) st of
           (out, st') \<Rightarrow> info_all_dynamic ds (db @ cstr (d_name d) @ [SEP] @ out @ [EOL], st'))
      else info_all_dynamic ds (db, st))"

definition info_all :: "'st registry \<Rightarrow> security \<Rightarrow> string \<times> 'st \<Rightarrow> string \<times> 'st" where
  "info_all reg sec acc =
     (case acc of (db, st) \<Rightarrow>
        if check_auth sec \<noteq> AS_OK then
          (db @ append_sec_err_str sec (check_auth sec) PERM_NONE @ [EOL], st)
        else
          info_all_dynamic (dynamic_head reg)
            (db @ concat (map (\<lambda>s. cstr (s_name s) @ [SEP] @ s_value s @ [EOL])
                            (filter s_def (static_head reg))), st))"

text \<open>
  One lookup line of \<^verbatim>\<open>info_some\<close> (\<^verbatim>\<open>thr_info.c:4444-4508\<close>): the static table, then
  the dynamic table, then, only when the name holds a \<^verbatim>\<open>/\<close>, the tree table under the text
  before the first \<^verbatim>\<open>/\<close>.  \<open>name\<close> is the text between \<^verbatim>\<open>tok\<close> and the cursor; the C code
  reads it as a C string.  When nothing matches, nothing is appended.
\<close>

definition info_lookup :: "'st registry \<Rightarrow> string \<Rightarrow> string \<times> 'st \<Rightarrow> string \<times> 'st" where
  "info_lookup reg name acc =
     (case acc of (db, st) \<Rightarrow>
      (case find (\<lambda>s. streq (s_name s) name) (static_head reg) of
         Some s \<Rightarrow> (db @ cstr name @ [SEP] @ s_value s @ [EOL], st)
       | None \<Rightarrow>
          (case find (\<lambda>d. streq (d_name d) name) (dynamic_head reg) of
             Some d \<Rightarrow>
               (case value_fn d (d_name d) st of
                  (out, st') \<Rightarrow> (db @ cstr (d_name d) @ [SEP] @ out @ [EOL], st'))
           | None \<Rightarrow>
              (if TREE_SEP \<in> set (cstr name) then
                 (let nm = takeWhile (\<lambda>c. c \<noteq> TREE_SEP) (cstr name);
                      branch = tl (dropWhile (\<lambda>c. c \<noteq> TREE_SEP) (cstr name))
                  in case find (\<lambda>t. streq (t_name t) nm) (tree_head reg) of
                       Some t \<Rightarrow>
                         (case tree_fn t (t_name t) branch st of
                            (out, st') \<Rightarrow>
                              (db @ cstr (t_name t) @ [TREE_SEP] @ branch @ [SEP] @ out @ [EOL], st'))
                     | None \<Rightarrow> (db, st))
               else (db, st)))))"

text \<open>
  One command line (\<^verbatim>\<open>thr_info.c:4525-4554\<close>): the command table, the permission check,
  then the handler or the security error text.  An unknown command is only logged.
\<close>

definition info_run_command ::
  "'st registry \<Rightarrow> security \<Rightarrow> string \<Rightarrow> string \<Rightarrow> string \<times> 'st \<Rightarrow> string \<times> 'st" where
  "info_run_command reg sec name param acc =
     (case acc of (db, st) \<Rightarrow>
      (case find (\<lambda>c. streq (c_name c) name) (command_head reg) of
         Some cmd \<Rightarrow>
           (let db1 = db @ cstr name @ '':'' @ cstr param @ [SEP];
                result = check_info_cmd sec (cstr name) (cstr param) (required_perm cmd)
            in if result = AS_OK then
                 (case command_fn cmd (c_name cmd) (cstr param) st of
                    (out, st') \<Rightarrow> (db1 @ out @ [EOL], st'))
               else (db1 @ append_sec_err_str sec result (required_perm cmd) @ [EOL], st))
       | None \<Rightarrow> (db, st)))"

text \<open>
  The scanning loop of \<^verbatim>\<open>info_some\<close> (\<^verbatim>\<open>thr_info.c:4438-4562\<close>).  As in the parameter
  extractor, \<open>tok\<close> is the text between the pointer \<^verbatim>\<open>tok\<close> and the cursor \<^verbatim>\<open>c\<close>, and the
  fourth argument is the request from the cursor to \<^verbatim>\<open>buf_lim\<close>.  After a colon the inner
  loop runs to the next EOL; when there is none before \<^verbatim>\<open>buf_lim\<close> the function leaves
  the outer loop (\<^verbatim>\<open>break\<close>).
\<close>

function info_some_loop ::
  "'st registry \<Rightarrow> security \<Rightarrow> string \<Rightarrow> string \<Rightarrow> string \<times> 'st \<Rightarrow> string \<times> 'st" where
  "info_some_loop reg sec tok [] acc = acc"
| "info_some_loop reg sec tok (x # rest) acc =
     (if x = EOL then info_some_loop reg sec [] rest (info_lookup reg tok acc)
      else if x = CHR '':'' then
        (case dropWhile (\<lambda>c. c \<noteq> EOL) rest of
           [] \<Rightarrow> acc
         | e # rest' \<Rightarrow>
             info_some_loop reg sec [] rest'
               (info_run_command reg sec tok (takeWhile (\<lambda>c. c \<noteq> EOL) rest) acc))
      else info_some_loop reg sec (tok @ [x]) rest acc)"
  by pat_completeness auto
termination
proof (relation "measure (\<lambda>(reg, sec, tok, s, acc). length s)")
  fix reg :: "'st registry" and sec :: security and tok :: string and x :: char
    and rest :: string and acc :: "string \<times> 'st" and e :: char and rest' :: string
  assume "dropWhile (\<lambda>c. c \<noteq> EOL) rest = e # rest'"
  then have "length (e # rest') \<le> length rest"
    by (metis length_dropWhile_le)
  then show "((reg, sec, [], rest', info_run_command reg sec tok (takeWhile (\<lambda>c. c \<noteq> EOL) rest) acc),
              (reg, sec, tok, x # rest, acc)) \<in> measure (\<lambda>(reg, sec, tok, s, acc). length s)"
    by simp
qed auto

definition info_some :: "'st registry \<Rightarrow> security \<Rightarrow> string \<Rightarrow> string \<times> 'st \<Rightarrow> string \<times> 'st" where
  "info_some reg sec buf acc =
     (if check_auth sec \<noteq> AS_OK then
        (case acc of (db, st) \<Rightarrow>
           (db @ append_sec_err_str sec (check_auth sec) PERM_NONE @ [EOL], st))
      else info_some_loop reg sec [] buf acc)"

text \<open>
  A name that no table answers (for a lookup line) or that the command table does not
  hold (for a command line), and a prefix of the request made of whole lines.
\<close>

definition lookup_unregistered :: "'st registry \<Rightarrow> string \<Rightarrow> bool" where
  "lookup_unregistered reg name =
     ((\<forall>s \<in> set (static_head reg). \<not> streq (s_name s) name) \<and>
      (\<forall>d \<in> set (dynamic_head reg). \<not> streq (d_name d) name) \<and>
      (TREE_SEP \<in> set (cstr name) \<longrightarrow>
         (\<forall>t \<in> set (tree_head reg).
            \<not> streq (t_name t) (takeWhile (\<lambda>c. c \<noteq> TREE_SEP) (cstr name)))))"

definition command_unregistered :: "'st registry \<Rightarrow> string \<Rightarrow> bool" where
  "command_unregistered reg name = (\<forall>c \<in> set (command_head reg). \<not> streq (c_name c) name)"

definition whole_lines :: "string \<Rightarrow> bool" where
  "whole_lines pre = (pre = [] \<or> last pre = EOL)"

section \<open>The worker's reply frame\<close>

text \<open>
  The body of the worker loop between dequeuing a request and sending the reply
  (\<^verbatim>\<open>thr_info_fn\<close>, \<^verbatim>\<open>thr_info.c:4603-4624\<close>).  The reply buffer starts with eight zero
  bytes; \<^verbatim>\<open>info_all\<close> or \<^verbatim>\<open>info_some\<close> append the body; then six of the eight bytes are
  overwritten.  \<^verbatim>\<open>sz\<close> is a \<^verbatim>\<open>uint64_t\<close>, each byte stored is a \<^verbatim>\<open>uint8_t\<close>.
\<close>

definition write_proto_header :: "8 word list \<Rightarrow> 8 word list" where
  "write_proto_header db =
     (let sz = (of_nat (length db) :: 64 word) - 8 in
      db[0 := 2, 1 := 1,
         4 := ucast (drop_bit 24 sz AND 0xff),
         5 := ucast (drop_bit 16 sz AND 0xff),
         6 := ucast (drop_bit 8 sz AND 0xff),
         7 := ucast (sz AND 0xff)])"

definition thr_info_fn_request ::
  "'st registry \<Rightarrow> security \<Rightarrow> string \<Rightarrow> 'st \<Rightarrow> 8 word list \<times> 'st" where
  "thr_info_fn_request reg sec body st =
     (case (if body = [] then info_all reg sec ([], st) else info_some reg sec body ([], st)) of
        (db, st') \<Rightarrow> (write_proto_header (replicate 8 0 @ map of_char db), st'))"

text \<open>The number that four bytes spell when read big-endian.\<close>

definition be32 :: "8 word list \<Rightarrow> nat" where
  "be32 bs = unat (bs ! 0) * 2 ^ 24 + unat (bs ! 1) * 2 ^ 16 + unat (bs ! 2) * 2 ^ 8 + unat (bs ! 3)"

section \<open>The ticker's fabric rates\<close>

text \<open>
  \<^verbatim>\<open>log_fabric_rate\<close> (\<^verbatim>\<open>ticker.c:324-351\<close>).  \<^verbatim>\<open>as_fabric_rate_capture\<close> fills \<open>rate\<close> with
  the bytes sent and received on each channel since the previous frame; it lives in the
  fabric module, so the captured counts are an argument here.  All quantities are
  \<^verbatim>\<open>uint64_t\<close>.  \<open>info_get_stats_fabric\<close> is the part of the statistics endpoint that
  publishes the eight fields (\<^verbatim>\<open>info_get_stats\<close>, \<^verbatim>\<open>thr_info.c:533-540\<close>).
\<close>

datatype as_fabric_channel =
  AS_FABRIC_CHANNEL_RW | AS_FABRIC_CHANNEL_CTRL | AS_FABRIC_CHANNEL_BULK | AS_FABRIC_CHANNEL_META

record fabric_rate =
  s_bytes :: "as_fabric_channel \<Rightarrow> 64 word"
  r_bytes :: "as_fabric_channel \<Rightarrow> 64 word"

record as_stats =
  fabric_bulk_s_rate :: "64 word"
  fabric_bulk_r_rate :: "64 word"
  fabric_ctrl_s_rate :: "64 word"
  fabric_ctrl_r_rate :: "64 word"
  fabric_meta_s_rate :: "64 word"
  fabric_meta_r_rate :: "64 word"
  fabric_rw_s_rate :: "64 word"
  fabric_rw_r_rate :: "64 word"

definition ticker_dt_sec :: "64 word \<Rightarrow> 64 word" where
  "ticker_dt_sec delta_time =
     (let dt_sec = delta_time div 1000000000 in if dt_sec < 1 then 1 else dt_sec)"

definition log_fabric_rate :: "64 word \<Rightarrow> fabric_rate \<Rightarrow> as_stats \<Rightarrow> as_stats" where
  "log_fabric_rate delta_time rate st =
     (let dt_sec = ticker_dt_sec delta_time in
      st\<lparr>fabric_bulk_s_rate := s_bytes rate AS_FABRIC_CHANNEL_BULK div dt_sec,
         fabric_bulk_r_rate := r_bytes rate AS_FABRIC_CHANNEL_BULK div dt_sec,
         fabric_ctrl_s_rate := s_bytes rate AS_FABRIC_CHANNEL_CTRL div dt_sec,
         fabric_ctrl_r_rate := r_bytes rate AS_FABRIC_CHANNEL_CTRL div dt_sec,
         fabric_meta_s_rate := s_bytes rate AS_FABRIC_CHANNEL_META div dt_sec,
         fabric_meta_r_rate := r_bytes rate AS_FABRIC_CHANNEL_META div dt_sec,
         fabric_rw_s_rate := s_bytes rate AS_FABRIC_CHANNEL_RW div dt_sec,
         fabric_rw_r_rate := r_bytes rate AS_FABRIC_CHANNEL_RW div dt_sec\<rparr>)"

definition info_get_stats_fabric :: "as_stats \<Rightarrow> (string \<times> 64 word) list" where
  "info_get_stats_fabric st =
     [(''fabric_bulk_send_rate'', fabric_bulk_s_rate st),
      (''fabric_bulk_recv_rate'', fabric_bulk_r_rate st),
      (''fabric_ctrl_send_rate'', fabric_ctrl_s_rate st),
      (''fabric_ctrl_recv_rate'', fabric_ctrl_r_rate st),
      (''fabric_meta_send_rate'', fabric_meta_s_rate st),
      (''fabric_meta_recv_rate'', fabric_meta_r_rate st),
      (''fabric_rw_send_rate'', fabric_rw_s_rate st),
      (''fabric_rw_recv_rate'', fabric_rw_r_rate st)]"

text \<open>
  The rate the specification describes: the byte count of the interval over the whole
  seconds of the interval, the divisor floored to one.
\<close>

definition rate_of :: "64 word \<Rightarrow> 64 word \<Rightarrow> nat" where
  "rate_of bytes delta_time = unat bytes div max 1 (unat delta_time div 1000000000)"

section \<open>A small registry for worked examples\<close>

text \<open>
  One static value, one tree endpoint, one command, and a connection that passes every
  security check.  The state is trivial.
\<close>

definition demo_registry :: "unit registry" where
  "demo_registry =
     \<lparr>static_head = [\<lparr>s_def = True, s_name = ''build'', s_value = ''6.0''\<rparr>],
      dynamic_head = [],
      tree_head = [\<lparr>t_name = ''namespace'', tree_fn = (\<lambda>n b st. (b, st))\<rparr>],
      command_head = [\<lparr>c_name = ''get-config'', command_fn = (\<lambda>n p st. (p, st)),
                        required_perm = PERM_NONE\<rparr>]\<rparr>"

definition demo_security :: security where
  "demo_security = \<lparr>check_auth = AS_OK, check_info_cmd = (\<lambda>n p perm. AS_OK),
                     result_str = (\<lambda>r. ''0'')\<rparr>"

section \<open>Secondary-index creation against the SMD snapshot\<close>

text \<open>
  An SMD item is a key with a value; a tombstone has no value (\<^verbatim>\<open>item->value == NULL\<close>).
  \<^verbatim>\<open>find_sindex_key_udata\<close> is the struct at \<^verbatim>\<open>thr_info.c:5929-5937\<close>.  The two counters
  are \<^verbatim>\<open>uint32_t\<close>; they count items of a vector whose size is a \<^verbatim>\<open>uint32_t\<close>, so they
  cannot wrap and are natural numbers here.
\<close>

record as_smd_item =
  item_key :: string
  item_value :: "string option"

record find_sindex_key_udata =
  fsk_ns_name :: string
  fsk_index_name :: string
  fsk_smd_key :: "string option"
  found_key :: "string option"
  n_name_matches :: nat
  n_indexes :: nat
  has_smd_key :: bool

text \<open>The body of the loop of \<^verbatim>\<open>find_sindex_key\<close> (\<^verbatim>\<open>thr_info.c:5950-5991\<close>) for one item.\<close>

definition find_sindex_key_item :: "find_sindex_key_udata \<Rightarrow> as_smd_item \<Rightarrow> find_sindex_key_udata" where
  "find_sindex_key_item fsk item =
     (case item_value item of
        None \<Rightarrow> fsk
      | Some v \<Rightarrow>
          if CHR ''|'' \<notin> set (cstr (item_key item)) then fsk
          else if takeWhile (\<lambda>c. c \<noteq> CHR ''|'') (cstr (item_key item)) \<noteq> cstr (fsk_ns_name fsk)
          then fsk
          else
            (let fsk1 = fsk\<lparr>n_indexes := n_indexes fsk + 1\<rparr>;
                 fsk2 = (case fsk_smd_key fsk1 of
                           Some k \<Rightarrow>
                             if streq k (item_key item)
                             then fsk1\<lparr>has_smd_key := True, fsk_smd_key := None\<rparr>
                             else fsk1
                         | None \<Rightarrow> fsk1)
             in if \<not> streq (fsk_index_name fsk2) v then fsk2
                else
                  (let fsk3 = fsk2\<lparr>n_name_matches := n_name_matches fsk2 + 1\<rparr>
                   in if n_name_matches fsk3 = 1
                      then fsk3\<lparr>found_key := Some (cstr (item_key item))\<rparr>
                      else fsk3\<lparr>found_key := None\<rparr>)))"

text \<open>\<^verbatim>\<open>find_sindex_key\<close> (\<^verbatim>\<open>thr_info.c:5939-5992\<close>): reset the four results, then visit the items in order.\<close>

definition find_sindex_key :: "as_smd_item list \<Rightarrow> find_sindex_key_udata \<Rightarrow> find_sindex_key_udata" where
  "find_sindex_key items fsk =
     foldl find_sindex_key_item
       (fsk\<lparr>found_key := None, n_name_matches := 0, n_indexes := 0, has_smd_key := False\<rparr>)
       items"

text \<open>
  The replies of the command.  \<^verbatim>\<open>INFO_FAIL_RESPONSE(db, num, message)\<close> appends
  \<^verbatim>\<open>FAIL:<num>:<message>\<close>; the numeric codes are declared outside these files, so a
  failure is kept as the pair of its symbolic code and its message.
\<close>

datatype as_err = AS_ERR_SINDEX_FOUND | AS_ERR_SINDEX_MAX_COUNT | AS_ERR_TIMEOUT

datatype sindex_reply = Reply_OK | Reply_FAIL as_err string

datatype smd_module = AS_SMD_MODULE_SINDEX

text \<open>A call \<^verbatim>\<open>as_smd_set_blocking(module, key, value, timeout)\<close>.\<close>

datatype smd_call = Smd_set_blocking smd_module string string nat

text \<open>The text of the two name-collision failures.\<close>

definition msg_different_definition :: string where
  "msg_different_definition =
     CHR 0x27 # ''indexname'' @ CHR 0x27 # '' already exists with different definition''"

definition msg_multiple_definitions :: string where
  "msg_multiple_definitions =
     CHR 0x27 # ''indexname'' @ CHR 0x27 # '' already exists with multiple definitions''"

text \<open>
  The tail of \<^verbatim>\<open>info_command_sindex_create\<close> (\<^verbatim>\<open>thr_info.c:6190-6243\<close>), after the
  parameters have been validated and the SMD key composed.  \<open>max_n\<close> is \<^verbatim>\<open>MAX_N_SINDEXES\<close>,
  \<open>items\<close> the snapshot that \<^verbatim>\<open>as_smd_get_all\<close> hands to \<^verbatim>\<open>find_sindex_key\<close>, and \<open>set_ok\<close>
  what \<^verbatim>\<open>as_smd_set_blocking\<close> returns if it is called.  The result is the reply and the
  SMD call issued, if any.
\<close>

definition info_command_sindex_create_smd ::
  "nat \<Rightarrow> bool \<Rightarrow> as_smd_item list \<Rightarrow> string \<Rightarrow> string \<Rightarrow> string \<Rightarrow> sindex_reply \<times> smd_call option" where
  "info_command_sindex_create_smd max_n set_ok items ns_str index_name_str smd_key =
     (let fsk = find_sindex_key items
                  \<lparr>fsk_ns_name = ns_str, fsk_index_name = index_name_str,
                   fsk_smd_key = Some smd_key, found_key = None, n_name_matches = 0,
                   n_indexes = 0, has_smd_key = False\<rparr>
      in case found_key fsk of
           Some fk \<Rightarrow>
             if \<not> streq fk smd_key
             then (Reply_FAIL AS_ERR_SINDEX_FOUND msg_different_definition, None)
             else (Reply_OK, None)
         | None \<Rightarrow>
             if n_name_matches fsk > 1
             then (Reply_FAIL AS_ERR_SINDEX_FOUND msg_multiple_definitions, None)
             else if \<not> has_smd_key fsk \<and> n_indexes fsk \<ge> max_n
             then (Reply_FAIL AS_ERR_SINDEX_MAX_COUNT ''already at sindex definition limit'', None)
             else if \<not> set_ok
             then (Reply_FAIL AS_ERR_TIMEOUT ''timeout'',
                   Some (Smd_set_blocking AS_SMD_MODULE_SINDEX (cstr smd_key) (cstr index_name_str) 0))
             else (Reply_OK,
                   Some (Smd_set_blocking AS_SMD_MODULE_SINDEX (cstr smd_key) (cstr index_name_str) 0)))"

text \<open>
  The four quantities in the words of the specification (section 4.G, step 4): the live
  entries of the namespace, those among them that carry the index name, whether one of
  them has the composed key, and how many there are.
\<close>

definition sindex_in_ns :: "string \<Rightarrow> as_smd_item \<Rightarrow> bool" where
  "sindex_in_ns ns item =
     (item_value item \<noteq> None \<and> CHR ''|'' \<in> set (cstr (item_key item)) \<and>
      takeWhile (\<lambda>c. c \<noteq> CHR ''|'') (cstr (item_key item)) = cstr ns)"

definition sindex_has_name :: "string \<Rightarrow> as_smd_item \<Rightarrow> bool" where
  "sindex_has_name name item = (case item_value item of Some v \<Rightarrow> streq name v | None \<Rightarrow> False)"

definition sindex_name_matches :: "string \<Rightarrow> string \<Rightarrow> as_smd_item list \<Rightarrow> as_smd_item list" where
  "sindex_name_matches ns name items =
     filter (\<lambda>it. sindex_in_ns ns it \<and> sindex_has_name name it) items"

definition sindex_key_present :: "string \<Rightarrow> string \<Rightarrow> as_smd_item list \<Rightarrow> bool" where
  "sindex_key_present ns k items = (\<exists>it \<in> set items. sindex_in_ns ns it \<and> streq k (item_key it))"

definition sindex_count :: "string \<Rightarrow> as_smd_item list \<Rightarrow> nat" where
  "sindex_count ns items = length (filter (sindex_in_ns ns) items)"

text \<open>
  What \<^verbatim>\<open>find_sindex_key\<close> has computed after visiting \<open>items\<close>, in terms of the four
  quantities above.
\<close>

definition fsk_inv :: "string \<Rightarrow> string \<Rightarrow> string \<Rightarrow> as_smd_item list \<Rightarrow> find_sindex_key_udata \<Rightarrow> bool" where
  "fsk_inv ns name k items fsk =
     (fsk_ns_name fsk = ns \<and> fsk_index_name fsk = name \<and>
      fsk_smd_key fsk = (if sindex_key_present ns k items then None else Some k) \<and>
      has_smd_key fsk = sindex_key_present ns k items \<and>
      n_indexes fsk = sindex_count ns items \<and>
      n_name_matches fsk = length (sindex_name_matches ns name items) \<and>
      found_key fsk =
        (case sindex_name_matches ns name items of
           [it] \<Rightarrow> Some (cstr (item_key it))
         | _ \<Rightarrow> None))"

text \<open>A snapshot with two definitions under one index name, and the key of the first.\<close>

definition two_same_name :: "as_smd_item list" where
  "two_same_name =
     [\<lparr>item_key = ''ns1|s|a||0|1'', item_value = Some ''idx''\<rparr>,
      \<lparr>item_key = ''ns1|s|b||0|1'', item_value = Some ''idx''\<rparr>]"

section \<open>The cluster-stable command\<close>

text \<open>
  Modelled from the spec: the Dyn-Buf appender for unsigned integers in hexadecimal
  (\<^verbatim>\<open>cf_dyn_buf_append_uint64_x\<close>, declared in \<^verbatim>\<open>dynbuf.h\<close>, which is not among the sources at
  hand): lowercase digits, no prefix, no leading zeros.
\<close>

definition hex_digit :: "nat \<Rightarrow> char" where
  "hex_digit n = ''0123456789abcdef'' ! (n mod 16)"

fun uint64_x :: "nat \<Rightarrow> string" where
  "uint64_x n = (if n < 16 then [hex_digit n] else uint64_x (n div 16) @ [hex_digit n])"

declare uint64_x.simps [simp del]

text \<open>
  What \<^verbatim>\<open>info_command_cluster_stable\<close> reads from other modules: the cluster key at its
  two reads (\<^verbatim>\<open>as_exchange_cluster_key\<close> at line 809 and again at line 911), whether
  migrations are allowed, the cluster size, the migrations remaining over all namespaces,
  the namespaces by name with their four partition counters, the integer parser
  \<^verbatim>\<open>cf_str_atoi_u32\<close>, and the constant \<^verbatim>\<open>AS_ID_NAMESPACE_SZ\<close>.  The partition counters
  count partitions of one namespace; their sum does not wrap.
\<close>

record ns_migrations =
  migrate_tx_partitions_remaining :: nat
  migrate_rx_partitions_remaining :: nat
  n_unavailable_partitions :: nat
  n_dead_partitions :: nat

record cluster_env =
  cluster_key_begin :: "64 word"
  cluster_key_end :: "64 word"
  migrations_allowed :: bool
  exchange_cluster_size :: "32 word"
  remaining_migrations :: nat
  namespace_byname :: "string \<Rightarrow> ns_migrations option"
  str_atoi_u32 :: "string \<Rightarrow> 32 word option"
  id_namespace_sz :: int

text \<open>
  The three parameter stages (\<^verbatim>\<open>thr_info.c:816-839\<close>, \<^verbatim>\<open>841-869\<close>, \<^verbatim>\<open>871-909\<close>).  Each gives
  the error text with which the command returns at once, if it does.
\<close>

definition cluster_stable_size :: "cluster_env \<Rightarrow> string \<Rightarrow> string option" where
  "cluster_stable_size env params =
     (case as_info_parameter_get params ''size'' [] 4 of
        (rv, size_str, size_str_len) \<Rightarrow>
          if rv = - 2 then Some ''ERROR::bad-size''
          else if rv = 0 then
            (case str_atoi_u32 env size_str of
               None \<Rightarrow> Some ''ERROR::bad-size''
             | Some target_sz \<Rightarrow>
                 if target_sz \<noteq> exchange_cluster_size env
                 then Some ''ERROR::cluster-not-specified-size''
                 else None)
          else None)"

definition cluster_stable_ignore_migrations :: "string \<Rightarrow> string + bool" where
  "cluster_stable_ignore_migrations params =
     (case as_info_parameter_get params ''ignore-migrations'' [] 6 of
        (rv, s, len) \<Rightarrow>
          if rv = - 2 then Inl ''ERROR::bad-ignore-migrations''
          else if rv = 0 then
            (if streq s ''true'' \<or> streq s ''yes'' then Inr True
             else if streq s ''false'' \<or> streq s ''no'' then Inr False
             else Inl ''ERROR::bad-ignore-migrations'')
          else Inr False)"

definition cluster_stable_migrations :: "cluster_env \<Rightarrow> string \<Rightarrow> string option" where
  "cluster_stable_migrations env params =
     (case as_info_parameter_get params ''namespace'' [] (id_namespace_sz env) of
        (rv, ns_name, len) \<Rightarrow>
          if rv = - 2 then Some ''ERROR::bad-namespace''
          else if rv = - 1 then
            (if remaining_migrations env \<noteq> 0 then Some ''ERROR::unstable-cluster'' else None)
          else
            (case namespace_byname env ns_name of
               None \<Rightarrow> Some ''ERROR::unknown-namespace''
             | Some ns \<Rightarrow>
                 if migrate_tx_partitions_remaining ns + migrate_rx_partitions_remaining ns +
                    n_unavailable_partitions ns + n_dead_partitions ns \<noteq> 0
                 then Some ''ERROR::unstable-cluster''
                 else None))"

text \<open>
  \<^verbatim>\<open>info_command_cluster_stable\<close> (\<^verbatim>\<open>thr_info.c:803-919\<close>): the text appended to the reply.
  Every failed check above appends its error and returns.  The last check, the comparison
  of the two reads of the cluster key (lines 911-914), appends its error and does not
  return: the key in hexadecimal (line 916) is appended in either case.
\<close>

definition info_command_cluster_stable :: "cluster_env \<Rightarrow> string \<Rightarrow> string" where
  "info_command_cluster_stable env params =
     (let begin_cluster_key = cluster_key_begin env in
      if \<not> migrations_allowed env then ''ERROR::unstable-cluster''
      else
        (case cluster_stable_size env params of
           Some err \<Rightarrow> err
         | None \<Rightarrow>
            (case cluster_stable_ignore_migrations params of
               Inl err \<Rightarrow> err
             | Inr ignore_migrations \<Rightarrow>
                (case (if \<not> ignore_migrations then cluster_stable_migrations env params
                       else None) of
                   Some err \<Rightarrow> err
                 | None \<Rightarrow>
                     (if begin_cluster_key \<noteq> cluster_key_end env
                      then ''ERROR::unstable-cluster'' else []) @
                     uint64_x (unat begin_cluster_key)))))"

text \<open>
  A cluster in which nothing migrates, every namespace is fully migrated, and the cluster
  key moves from 1 to 2 while the command runs.
\<close>

definition key_changed_env :: cluster_env where
  "key_changed_env =
     \<lparr>cluster_key_begin = 1, cluster_key_end = 2, migrations_allowed = True,
      exchange_cluster_size = 3, remaining_migrations = 0,
      namespace_byname = (\<lambda>n. if n = ''test''
         then Some \<lparr>migrate_tx_partitions_remaining = 0, migrate_rx_partitions_remaining = 0,
                    n_unavailable_partitions = 0, n_dead_partitions = 0\<rparr>
         else None),
      str_atoi_u32 = (\<lambda>s. if s = ''3'' then Some 3 else None),
      id_namespace_sz = 32\<rparr>"

section \<open>The worker pool\<close>

text \<open>
  A queued transaction carries a connection handle; the termination message is the
  transaction with the NULL handle (\<^verbatim>\<open>as_info_transaction death_msg = { 0 }\<close>).  The pool
  is the configured size \<^verbatim>\<open>g_config.n_info_threads\<close>, the queue \<^verbatim>\<open>g_info_work_q\<close> (head
  first; \<^verbatim>\<open>as_info\<close> pushes at the tail, \<^verbatim>\<open>cf_queue_pop\<close> takes the head) and the number of
  threads running \<^verbatim>\<open>thr_info_fn\<close>.  The size is a \<^verbatim>\<open>uint32_t\<close>; the loops below move it
  towards \<open>n_threads\<close> one step at a time, so it never wraps.
\<close>

record as_info_transaction =
  fd_h :: "nat option"
  proto :: string

definition death_msg :: as_info_transaction where
  "death_msg = \<lparr>fd_h = None, proto = []\<rparr>"

record info_pool =
  n_info_threads :: nat
  info_work_q :: "as_info_transaction list"
  live_workers :: nat

text \<open>\<^verbatim>\<open>info_set_num_info_threads\<close> (\<^verbatim>\<open>thr_info.c:4668-4688\<close>) and its two loops.\<close>

function info_threads_decrease :: "nat \<Rightarrow> info_pool \<Rightarrow> info_pool" where
  "info_threads_decrease n_threads p =
     (if n_info_threads p > n_threads then
        info_threads_decrease n_threads
          (p\<lparr>info_work_q := info_work_q p @ [death_msg],
             n_info_threads := n_info_threads p - 1\<rparr>)
      else p)"
  by pat_completeness auto
termination
  by (relation "measure (\<lambda>(n, p). n_info_threads p - n)") auto

function info_threads_increase :: "nat \<Rightarrow> info_pool \<Rightarrow> info_pool" where
  "info_threads_increase n_threads p =
     (if n_info_threads p < n_threads then
        info_threads_increase n_threads
          (p\<lparr>live_workers := live_workers p + 1,
             n_info_threads := n_info_threads p + 1\<rparr>)
      else p)"
  by pat_completeness auto
termination
  by (relation "measure (\<lambda>(n, p). n - n_info_threads p)") auto

declare info_threads_decrease.simps [simp del]
declare info_threads_increase.simps [simp del]

definition info_set_num_info_threads :: "nat \<Rightarrow> info_pool \<Rightarrow> info_pool" where
  "info_set_num_info_threads n_threads p =
     (if n_info_threads p > n_threads then info_threads_decrease n_threads p
      else info_threads_increase n_threads p)"

text \<open>
  One turn of \<^verbatim>\<open>thr_info_fn\<close> (\<^verbatim>\<open>thr_info.c:4588-4598\<close>) by one of the live workers: it
  takes the head of the queue; on the NULL handle it leaves its loop and the thread ends;
  otherwise it serves the request and stays.  With an empty queue, or with no worker
  left, nothing happens.
\<close>

definition thr_info_fn_pop :: "info_pool \<Rightarrow> info_pool" where
  "thr_info_fn_pop p =
     (case info_work_q p of
        [] \<Rightarrow> p
      | it # q \<Rightarrow>
          if live_workers p = 0 then p
          else (case fd_h it of
                  None \<Rightarrow> p\<lparr>info_work_q := q, live_workers := live_workers p - 1\<rparr>
                | Some h \<Rightarrow> p\<lparr>info_work_q := q\<rparr>))"

text \<open>The workers take everything that is queued.\<close>

definition pool_drain :: "info_pool \<Rightarrow> info_pool" where
  "pool_drain p = (thr_info_fn_pop ^^ length (info_work_q p)) p"

definition pending_sentinels :: "info_pool \<Rightarrow> nat" where
  "pending_sentinels p = length (filter (\<lambda>it. fd_h it = None) (info_work_q p))"

text \<open>
  The invariant of the pool: every live worker is either counted in the configured size
  or has its termination message waiting in the queue.  It holds after \<^verbatim>\<open>as_info_init\<close>,
  which starts \<^verbatim>\<open>n_info_threads\<close> workers on an empty queue (\<^verbatim>\<open>thr_info.c:6837-6839\<close>).
\<close>

definition pool_inv :: "info_pool \<Rightarrow> bool" where
  "pool_inv p = (live_workers p = n_info_threads p + pending_sentinels p)"

definition as_info_init_pool :: "nat \<Rightarrow> info_pool" where
  "as_info_init_pool n = \<lparr>n_info_threads = n, info_work_q = [], live_workers = n\<rparr>"

text \<open>\<^verbatim>\<open>as_info\<close> (\<^verbatim>\<open>thr_info.c:4661-4665\<close>): a transaction is pushed on the queue.\<close>

definition as_info :: "as_info_transaction \<Rightarrow> info_pool \<Rightarrow> info_pool" where
  "as_info it p = p\<lparr>info_work_q := info_work_q p @ [it]\<rparr>"

text \<open>A pool in the middle of shrinking from four workers to three, with a request waiting.\<close>

definition shrinking_pool :: info_pool where
  "shrinking_pool =
     \<lparr>n_info_threads = 3,
      info_work_q = [death_msg, \<lparr>fd_h = Some 7, proto = ''build''\<rparr>],
      live_workers = 4\<rparr>"

section \<open>Live configuration\<close>

text \<open>
  Modelled from the spec: the histogram and its two operations (\<^verbatim>\<open>histogram_clear\<close>,
  \<^verbatim>\<open>histogram_rescale\<close>) and the storage module's \<^verbatim>\<open>as_storage_histogram_clear_all\<close> are
  declared outside the sources at hand.  A histogram is its scale and its bucket counts;
  clearing sets every count to zero, rescaling sets the scale and clears.
\<close>

datatype histogram_scale = HIST_MILLISECONDS | HIST_MICROSECONDS

record histogram =
  hist_scale :: histogram_scale
  hist_counts :: "nat list"

definition histogram_clear :: "histogram \<Rightarrow> histogram" where
  "histogram_clear h = h\<lparr>hist_counts := map (\<lambda>c. 0) (hist_counts h)\<rparr>"

definition histogram_rescale :: "histogram_scale \<Rightarrow> histogram \<Rightarrow> histogram" where
  "histogram_rescale scale h = (histogram_clear h)\<lparr>hist_scale := scale\<rparr>"

definition histogram_empty :: "histogram \<Rightarrow> bool" where
  "histogram_empty h = list_all (\<lambda>c. c = 0) (hist_counts h)"

text \<open>
  The histogram-enablement toggles of \<^verbatim>\<open>config-set\<close>.  Two belong to the service context:
  \<open>FABRIC_BENCHMARKS\<close> is \<^verbatim>\<open>g_config.fabric_benchmarks_enabled\<close> with the sixteen fabric
  histograms of \<^verbatim>\<open>g_stats\<close>, \<open>INFO_HIST\<close> is \<^verbatim>\<open>g_config.info_hist_enabled\<close> with
  \<^verbatim>\<open>g_stats.info_hist\<close>.  Eight belong to a namespace: \<open>READ_BENCHMARKS\<close> is
  \<^verbatim>\<open>ns->read_benchmarks_enabled\<close> with the histograms that
  \<^verbatim>\<open>read_benchmarks_histogram_clear_all\<close> goes through, and so on; \<open>PROXY_HIST\<close> is
  \<^verbatim>\<open>ns->proxy_hist_enabled\<close> with \<^verbatim>\<open>ns->proxy_hist\<close>.
\<close>

datatype svc_hist = FABRIC_BENCHMARKS | INFO_HIST

datatype ns_hist =
  BATCH_SUB_BENCHMARKS | OPS_SUB_BENCHMARKS | READ_BENCHMARKS | STORAGE_BENCHMARKS |
  UDF_BENCHMARKS | UDF_SUB_BENCHMARKS | WRITE_BENCHMARKS | PROXY_HIST

record as_namespace =
  ns_name :: string
  memory_size :: "64 word"
  evict_tenths_pct :: "32 word"
  ns_hist_enabled :: "ns_hist \<Rightarrow> bool"
  ns_hists :: "ns_hist \<Rightarrow> histogram list"

text \<open>
  The part of the global state that the modelled keys touch; \<open>other\<close> stands for the rest
  of \<^verbatim>\<open>g_config\<close> and of the subsystems that the remaining keys write to.
\<close>

record 'o as_config =
  pool :: info_pool
  microsecond_histograms :: bool
  hist_enabled :: "svc_hist \<Rightarrow> bool"
  hists :: "svc_hist \<Rightarrow> histogram list"
  namespaces :: "as_namespace list"
  other :: 'o

text \<open>
  A branch of \<^verbatim>\<open>info_command_config_set_threadsafe\<close> either falls through to the end of
  the function (\<open>Applied\<close>) or jumps to the label \<^verbatim>\<open>Error\<close> (\<open>Rejected\<close>); either way it
  leaves a state behind.  A handler is the body of one \<^verbatim>\<open>else if\<close> branch: it gets the
  value just extracted, the whole parameter string and the state.
\<close>

datatype 'c outcome = Applied 'c | Rejected 'c

type_synonym 'o handler = "string \<Rightarrow> string \<Rightarrow> 'o as_config \<Rightarrow> 'o as_config outcome"

text \<open>
  What the function takes from outside these files: the edition
  (\<^verbatim>\<open>as_config_error_enterprise_only\<close>), the integer parsers \<^verbatim>\<open>cf_str_atoi\<close> and
  \<^verbatim>\<open>cf_str_atoi_u64\<close>, the C library's \<^verbatim>\<open>atoi\<close> and \<^verbatim>\<open>atoll\<close> (which give a number
  for every text), the store of a set's \<^verbatim>\<open>stop_writes_count\<close>, the constants \<^verbatim>\<open>MAX_INFO_THREADS\<close> and \<^verbatim>\<open>AS_SET_NAME_MAX_SIZE\<close>,
  the creation of a set, the security and XDR configuration setters, and, for every key
  whose branch is not spelled out below, its branch as a handler (\<open>ext_service\<close> and so on,
  indexed by the key; the namespace ones also by the index of the namespace, the set ones
  also by the set name).
\<close>

record 'o set_env =
  enterprise_only :: bool
  str_atoi :: "string \<Rightarrow> int option"
  str_atoi_u64 :: "string \<Rightarrow> 64 word option"
  libc_atoi :: "string \<Rightarrow> int"
  libc_atoll :: "string \<Rightarrow> int"
  set_stop_writes_count :: "nat \<Rightarrow> string \<Rightarrow> 64 word \<Rightarrow> 'o as_config \<Rightarrow> 'o as_config"
  max_info_threads :: int
  set_name_max_size :: int
  ext_service :: "string \<Rightarrow> 'o handler"
  ext_network :: "string \<Rightarrow> 'o handler"
  ext_namespace :: "nat \<Rightarrow> string \<Rightarrow> 'o handler"
  ext_set :: "nat \<Rightarrow> string \<Rightarrow> string \<Rightarrow> 'o handler"
  get_create_set :: "nat \<Rightarrow> string \<Rightarrow> 'o as_config \<Rightarrow> 'o as_config option"
  security_set_config :: "string \<Rightarrow> 'o as_config \<Rightarrow> 'o as_config outcome"
  xdr_set_config :: "string \<Rightarrow> 'o as_config \<Rightarrow> 'o as_config outcome"

text \<open>The boolean values: \<^verbatim>\<open>strncmp(context, "true", 4) == 0 || strncmp(context, "yes", 3) == 0\<close>.\<close>

definition is_true :: "string \<Rightarrow> bool" where
  "is_true v = (strncmp_eq v ''true'' \<or> strncmp_eq v ''yes'')"

definition is_false :: "string \<Rightarrow> bool" where
  "is_false v = (strncmp_eq v ''false'' \<or> strncmp_eq v ''no'')"

subsection \<open>Histogram toggles\<close>

text \<open>
  Modelled from the spec: \<^verbatim>\<open>as_config_histogram_scale\<close>, declared outside the sources at
  hand, gives the scale that the configuration asks for (microseconds when
  \<^verbatim>\<open>microsecond-histograms\<close> is set, milliseconds otherwise).
\<close>

definition as_config_histogram_scale :: "'o as_config \<Rightarrow> histogram_scale" where
  "as_config_histogram_scale g =
     (if microsecond_histograms g then HIST_MICROSECONDS else HIST_MILLISECONDS)"

text \<open>
  The two statements of a toggle branch in the service context.  The clearing statement
  is \<^verbatim>\<open>fabric_histogram_clear_all\<close> (\<^verbatim>\<open>thr_info.c:2179-2200\<close>), which rescales each fabric
  histogram, or \<^verbatim>\<open>histogram_clear(g_stats.info_hist)\<close>; the other statement assigns the
  flag.
\<close>

definition svc_hist_clear :: "svc_hist \<Rightarrow> 'o as_config \<Rightarrow> 'o as_config" where
  "svc_hist_clear t g =
     (case t of
        FABRIC_BENCHMARKS \<Rightarrow>
          g\<lparr>hists := (hists g)(t := map (histogram_rescale (as_config_histogram_scale g)) (hists g t))\<rparr>
      | INFO_HIST \<Rightarrow> g\<lparr>hists := (hists g)(t := map histogram_clear (hists g t))\<rparr>)"

definition svc_set_flag :: "svc_hist \<Rightarrow> bool \<Rightarrow> 'o as_config \<Rightarrow> 'o as_config" where
  "svc_set_flag t b g = g\<lparr>hist_enabled := (hist_enabled g)(t := b)\<rparr>"

text \<open>
  Every toggle branch has the same three arms (\<^verbatim>\<open>enable-benchmarks-fabric\<close>,
  \<^verbatim>\<open>thr_info.c:2515-2531\<close>, and \<^verbatim>\<open>enable-hist-info\<close>, \<^verbatim>\<open>2545-2561\<close>): on a true value,
  clear if the flag is off, then set the flag; on a false value, clear the flag, then
  clear the histograms; otherwise \<^verbatim>\<open>goto Error\<close>.  Configuration is read without a lock
  while a branch runs, so the state after each single statement can be observed:
  \<open>svc_hist_toggle_states\<close> is the list of the states after each statement of the arm, in
  the order of execution, and the branch ends in the last of them.
\<close>

definition svc_hist_toggle_states :: "svc_hist \<Rightarrow> string \<Rightarrow> 'o as_config \<Rightarrow> 'o as_config list option" where
  "svc_hist_toggle_states t v g =
     (if is_true v then
        (if \<not> hist_enabled g t
         then Some [svc_hist_clear t g, svc_set_flag t True (svc_hist_clear t g)]
         else Some [svc_set_flag t True g])
      else if is_false v then
        Some [svc_set_flag t False g, svc_hist_clear t (svc_set_flag t False g)]
      else None)"

definition svc_hist_toggle :: "svc_hist \<Rightarrow> 'o handler" where
  "svc_hist_toggle t v params g =
     (case svc_hist_toggle_states t v g of
        Some states \<Rightarrow> Applied (last (g # states))
      | None \<Rightarrow> Rejected g)"

text \<open>
  The same for the eight toggles of a namespace (\<^verbatim>\<open>thr_info.c:3283-3418\<close>), on the
  namespace at index \<open>ix\<close> of \<^verbatim>\<open>g_config.namespaces\<close>.  The clearing statement is one of the
  \<^verbatim>\<open>*_histogram_clear_all\<close> functions (\<^verbatim>\<open>thr_info.c:2202-2282\<close>), which rescale each
  histogram of their group, or \<^verbatim>\<open>histogram_clear(ns->proxy_hist)\<close>.
\<close>

definition ns_hist_clear :: "histogram_scale \<Rightarrow> ns_hist \<Rightarrow> as_namespace \<Rightarrow> as_namespace" where
  "ns_hist_clear scale t ns =
     (case t of
        PROXY_HIST \<Rightarrow> ns\<lparr>ns_hists := (ns_hists ns)(t := map histogram_clear (ns_hists ns t))\<rparr>
      | _ \<Rightarrow> ns\<lparr>ns_hists := (ns_hists ns)(t := map (histogram_rescale scale) (ns_hists ns t))\<rparr>)"

definition ns_hist_clear_at :: "nat \<Rightarrow> ns_hist \<Rightarrow> 'o as_config \<Rightarrow> 'o as_config" where
  "ns_hist_clear_at ix t g =
     g\<lparr>namespaces :=
         (namespaces g)[ix := ns_hist_clear (as_config_histogram_scale g) t (namespaces g ! ix)]\<rparr>"

definition ns_set_flag_at :: "nat \<Rightarrow> ns_hist \<Rightarrow> bool \<Rightarrow> 'o as_config \<Rightarrow> 'o as_config" where
  "ns_set_flag_at ix t b g =
     g\<lparr>namespaces :=
         (namespaces g)[ix := (namespaces g ! ix)
            \<lparr>ns_hist_enabled := (ns_hist_enabled (namespaces g ! ix))(t := b)\<rparr>]\<rparr>"

definition ns_hist_toggle_states ::
  "nat \<Rightarrow> ns_hist \<Rightarrow> string \<Rightarrow> 'o as_config \<Rightarrow> 'o as_config list option" where
  "ns_hist_toggle_states ix t v g =
     (if is_true v then
        (if \<not> ns_hist_enabled (namespaces g ! ix) t
         then Some [ns_hist_clear_at ix t g, ns_set_flag_at ix t True (ns_hist_clear_at ix t g)]
         else Some [ns_set_flag_at ix t True g])
      else if is_false v then
        Some [ns_set_flag_at ix t False g, ns_hist_clear_at ix t (ns_set_flag_at ix t False g)]
      else None)"

definition ns_hist_toggle :: "nat \<Rightarrow> ns_hist \<Rightarrow> 'o handler" where
  "ns_hist_toggle ix t v params g =
     (case ns_hist_toggle_states ix t v g of
        Some states \<Rightarrow> Applied (last (g # states))
      | None \<Rightarrow> Rejected g)"

text \<open>
  The key of each toggle in its table, the flag and the histograms of a namespace toggle
  read from the global state, and the shape of an arm of two statements: the state after
  the first statement satisfies \<open>P\<close>, the state after the second satisfies \<open>Q\<close>.
\<close>

definition svc_toggle_key :: "svc_hist \<Rightarrow> string" where
  "svc_toggle_key t =
     (case t of
        FABRIC_BENCHMARKS \<Rightarrow> ''enable-benchmarks-fabric''
      | INFO_HIST \<Rightarrow> ''enable-hist-info'')"

definition ns_toggle_key :: "ns_hist \<Rightarrow> string" where
  "ns_toggle_key t =
     (case t of
        BATCH_SUB_BENCHMARKS \<Rightarrow> ''enable-benchmarks-batch-sub''
      | OPS_SUB_BENCHMARKS \<Rightarrow> ''enable-benchmarks-ops-sub''
      | READ_BENCHMARKS \<Rightarrow> ''enable-benchmarks-read''
      | STORAGE_BENCHMARKS \<Rightarrow> ''enable-benchmarks-storage''
      | UDF_BENCHMARKS \<Rightarrow> ''enable-benchmarks-udf''
      | UDF_SUB_BENCHMARKS \<Rightarrow> ''enable-benchmarks-udf-sub''
      | WRITE_BENCHMARKS \<Rightarrow> ''enable-benchmarks-write''
      | PROXY_HIST \<Rightarrow> ''enable-hist-proxy'')"

definition ns_flag :: "nat \<Rightarrow> ns_hist \<Rightarrow> 'o as_config \<Rightarrow> bool" where
  "ns_flag ix t g = ns_hist_enabled (namespaces g ! ix) t"

definition ns_hists_of :: "nat \<Rightarrow> ns_hist \<Rightarrow> 'o as_config \<Rightarrow> histogram list" where
  "ns_hists_of ix t g = ns_hists (namespaces g ! ix) t"

definition two_statements :: "'c list option \<Rightarrow> ('c \<Rightarrow> bool) \<Rightarrow> ('c \<Rightarrow> bool) \<Rightarrow> bool" where
  "two_statements r P Q = (case r of Some [c1, c2] \<Rightarrow> P c1 \<and> Q c2 | _ \<Rightarrow> False)"

text \<open>A branch that works on the namespace found by \<^verbatim>\<open>id\<close>, here the one at index \<open>ix\<close>.\<close>

definition on_namespace ::
  "nat \<Rightarrow> (string \<Rightarrow> as_namespace \<Rightarrow> as_namespace outcome) \<Rightarrow> 'o handler" where
  "on_namespace ix f v params g =
     (case f v (namespaces g ! ix) of
        Applied ns' \<Rightarrow> Applied (g\<lparr>namespaces := (namespaces g)[ix := ns']\<rparr>)
      | Rejected ns' \<Rightarrow> Rejected (g\<lparr>namespaces := (namespaces g)[ix := ns']\<rparr>))"

subsection \<open>memory-size, info-threads, microsecond-histograms\<close>

text \<open>
  The \<^verbatim>\<open>memory-size\<close> branch (\<^verbatim>\<open>thr_info.c:2752-2766\<close>), on \<^verbatim>\<open>uint64_t\<close> values: a larger
  value is stored before the test against half the stored value, so the test can only
  fail for a smaller one.
\<close>

definition ns_set_memory_size :: "'o set_env \<Rightarrow> string \<Rightarrow> as_namespace \<Rightarrow> as_namespace outcome" where
  "ns_set_memory_size env v ns =
     (case str_atoi_u64 env v of
        None \<Rightarrow> Rejected ns
      | Some val \<Rightarrow>
          (let ns1 = (if val > memory_size ns then ns\<lparr>memory_size := val\<rparr> else ns)
           in if val < memory_size ns1 div 2 then Rejected ns1
              else Applied (ns1\<lparr>memory_size := val\<rparr>)))"

text \<open>The \<^verbatim>\<open>info-threads\<close> branch (\<^verbatim>\<open>thr_info.c:2434-2444\<close>).\<close>

definition set_info_threads :: "'o set_env \<Rightarrow> 'o handler" where
  "set_info_threads env v params g =
     (case str_atoi env v of
        None \<Rightarrow> Rejected g
      | Some val \<Rightarrow>
          if val < 1 \<or> val > max_info_threads env then Rejected g
          else Applied (g\<lparr>pool := info_set_num_info_threads (nat val) (pool g)\<rparr>))"

text \<open>
  \<^verbatim>\<open>any_benchmarks_enabled\<close> (\<^verbatim>\<open>thr_info.c:2284-2301\<close>) and the \<^verbatim>\<open>microsecond-histograms\<close>
  branch (\<^verbatim>\<open>2498-2514\<close>).
\<close>

definition any_benchmarks_enabled :: "'o as_config \<Rightarrow> bool" where
  "any_benchmarks_enabled g =
     ((\<exists>ns \<in> set (namespaces g).
         ns_hist_enabled ns READ_BENCHMARKS \<or> ns_hist_enabled ns WRITE_BENCHMARKS \<or>
         ns_hist_enabled ns UDF_BENCHMARKS \<or> ns_hist_enabled ns BATCH_SUB_BENCHMARKS \<or>
         ns_hist_enabled ns UDF_SUB_BENCHMARKS \<or> ns_hist_enabled ns OPS_SUB_BENCHMARKS) \<or>
      hist_enabled g FABRIC_BENCHMARKS)"

definition set_microsecond_histograms :: "'o handler" where
  "set_microsecond_histograms v params g =
     (if any_benchmarks_enabled g then Rejected g
      else if is_true v then Applied (g\<lparr>microsecond_histograms := True\<rparr>)
      else if is_false v then Applied (g\<lparr>microsecond_histograms := False\<rparr>)
      else Rejected g)"

text \<open>
  Two branches parse their value with the C library and have no path to \<^verbatim>\<open>Error\<close>:
  \<^verbatim>\<open>evict-tenths-pct\<close> of a namespace (\<^verbatim>\<open>thr_info.c:2781-2784\<close>, \<^verbatim>\<open>atoi\<close>) and
  \<^verbatim>\<open>stop-writes-count\<close> of a set (\<^verbatim>\<open>thr_info.c:2743-2747\<close>, \<^verbatim>\<open>atoll\<close>).  Whatever the
  text of the value, a number is stored and the branch falls through.
\<close>

definition ns_set_evict_tenths_pct :: "'o set_env \<Rightarrow> string \<Rightarrow> as_namespace \<Rightarrow> as_namespace outcome" where
  "ns_set_evict_tenths_pct env v ns =
     Applied (ns\<lparr>evict_tenths_pct := word_of_int (libc_atoi env v)\<rparr>)"

definition set_set_stop_writes_count :: "'o set_env \<Rightarrow> nat \<Rightarrow> string \<Rightarrow> 'o handler" where
  "set_set_stop_writes_count env ix set_name v params g =
     Applied (set_stop_writes_count env ix set_name (word_of_int (libc_atoll env v)) g)"

text \<open>A branch that starts with the edition check and \<^verbatim>\<open>goto Error\<close>.\<close>

definition ee_gate :: "'o set_env \<Rightarrow> 'o handler \<Rightarrow> 'o handler" where
  "ee_gate env h v params g = (if enterprise_only env then Rejected g else h v params g)"

subsection \<open>The key tables\<close>

text \<open>
  The keys of each context in the order of the \<^verbatim>\<open>else if\<close> chain that tests them
  (\<^verbatim>\<open>thr_info.c:2323-2577\<close> for service, \<^verbatim>\<open>2581-2680\<close> for network, \<^verbatim>\<open>2717-2750\<close> for a set,
  \<^verbatim>\<open>2752-3580\<close> for a namespace).
\<close>

definition service_keys :: "'o set_env \<Rightarrow> (string \<times> 'o handler) list" where
  "service_keys env =
     [(''advertise-ipv6'', ext_service env ''advertise-ipv6''),
      (''service-threads'', ext_service env ''service-threads''),
      (''transaction-retry-ms'', ext_service env ''transaction-retry-ms''),
      (''transaction-max-ms'', ext_service env ''transaction-max-ms''),
      (''ticker-interval'', ext_service env ''ticker-interval''),
      (''query-max-done'', ext_service env ''query-max-done''),
      (''query-threads-limit'', ext_service env ''query-threads-limit''),
      (''batch-index-threads'', ext_service env ''batch-index-threads''),
      (''batch-max-requests'', ext_service env ''batch-max-requests''),
      (''batch-max-buffers-per-queue'', ext_service env ''batch-max-buffers-per-queue''),
      (''batch-max-unused-buffers'', ext_service env ''batch-max-unused-buffers''),
      (''proto-fd-max'', ext_service env ''proto-fd-max''),
      (''proto-fd-idle-ms'', ext_service env ''proto-fd-idle-ms''),
      (''cluster-name'', ext_service env ''cluster-name''),
      (''info-threads'', set_info_threads env),
      (''migrate-fill-delay'', ee_gate env (ext_service env ''migrate-fill-delay'')),
      (''migrate-max-num-incoming'', ext_service env ''migrate-max-num-incoming''),
      (''migrate-threads'', ext_service env ''migrate-threads''),
      (''min-cluster-size'', ext_service env ''min-cluster-size''),
      (''sindex-builder-threads'', ext_service env ''sindex-builder-threads''),
      (''sindex-gc-period'', ext_service env ''sindex-gc-period''),
      (''microsecond-histograms'', set_microsecond_histograms),
      (''enable-benchmarks-fabric'', svc_hist_toggle FABRIC_BENCHMARKS),
      (''enable-health-check'', ext_service env ''enable-health-check''),
      (''enable-hist-info'', svc_hist_toggle INFO_HIST),
      (''downgrading'', ext_service env ''downgrading'')]"

definition network_keys :: "'o set_env \<Rightarrow> (string \<times> 'o handler) list" where
  "network_keys env =
     [(''heartbeat.interval'', ext_network env ''heartbeat.interval''),
      (''heartbeat.timeout'', ext_network env ''heartbeat.timeout''),
      (''heartbeat.connect-timeout-ms'', ext_network env ''heartbeat.connect-timeout-ms''),
      (''heartbeat.mtu'', ext_network env ''heartbeat.mtu''),
      (''heartbeat.protocol'', ext_network env ''heartbeat.protocol''),
      (''fabric.channel-bulk-recv-threads'', ext_network env ''fabric.channel-bulk-recv-threads''),
      (''fabric.channel-ctrl-recv-threads'', ext_network env ''fabric.channel-ctrl-recv-threads''),
      (''fabric.channel-meta-recv-threads'', ext_network env ''fabric.channel-meta-recv-threads''),
      (''fabric.channel-rw-recv-threads'', ext_network env ''fabric.channel-rw-recv-threads''),
      (''fabric.recv-rearm-threshold'', ext_network env ''fabric.recv-rearm-threshold'')]"

definition set_keys :: "'o set_env \<Rightarrow> nat \<Rightarrow> string \<Rightarrow> (string \<times> 'o handler) list" where
  "set_keys env ix set_name =
     [(''disable-eviction'', ext_set env ix set_name ''disable-eviction''),
      (''enable-index'', ext_set env ix set_name ''enable-index''),
      (''stop-writes-count'', set_set_stop_writes_count env ix set_name)]"

definition namespace_keys :: "'o set_env \<Rightarrow> nat \<Rightarrow> (string \<times> 'o handler) list" where
  "namespace_keys env ix =
     [(''memory-size'', on_namespace ix (ns_set_memory_size env)),
      (''high-water-disk-pct'', ext_namespace env ix ''high-water-disk-pct''),
      (''high-water-memory-pct'', ext_namespace env ix ''high-water-memory-pct''),
      (''evict-tenths-pct'', on_namespace ix (ns_set_evict_tenths_pct env)),
      (''evict-hist-buckets'', ext_namespace env ix ''evict-hist-buckets''),
      (''background-query-max-rps'', ext_namespace env ix ''background-query-max-rps''),
      (''single-query-threads'', ext_namespace env ix ''single-query-threads''),
      (''stop-writes-pct'', ext_namespace env ix ''stop-writes-pct''),
      (''default-ttl'', ext_namespace env ix ''default-ttl''),
      (''max-record-size'', ext_namespace env ix ''max-record-size''),
      (''migrate-order'', ext_namespace env ix ''migrate-order''),
      (''migrate-retransmit-ms'', ext_namespace env ix ''migrate-retransmit-ms''),
      (''migrate-sleep'', ext_namespace env ix ''migrate-sleep''),
      (''nsup-hist-period'', ext_namespace env ix ''nsup-hist-period''),
      (''nsup-period'', ext_namespace env ix ''nsup-period''),
      (''nsup-threads'', ext_namespace env ix ''nsup-threads''),
      (''replication-factor'', ext_namespace env ix ''replication-factor''),
      (''conflict-resolve-writes'', ee_gate env (ext_namespace env ix ''conflict-resolve-writes'')),
      (''xdr-bin-tombstone-ttl'', ee_gate env (ext_namespace env ix ''xdr-bin-tombstone-ttl'')),
      (''xdr-tomb-raider-period'', ee_gate env (ext_namespace env ix ''xdr-tomb-raider-period'')),
      (''xdr-tomb-raider-threads'', ee_gate env (ext_namespace env ix ''xdr-tomb-raider-threads'')),
      (''tomb-raider-eligible-age'', ee_gate env (ext_namespace env ix ''tomb-raider-eligible-age'')),
      (''tomb-raider-period'', ee_gate env (ext_namespace env ix ''tomb-raider-period'')),
      (''tomb-raider-sleep'', ee_gate env (ext_namespace env ix ''tomb-raider-sleep'')),
      (''transaction-pending-limit'', ext_namespace env ix ''transaction-pending-limit''),
      (''truncate-threads'', ext_namespace env ix ''truncate-threads''),
      (''rack-id'', ee_gate env (ext_namespace env ix ''rack-id'')),
      (''conflict-resolution-policy'', ext_namespace env ix ''conflict-resolution-policy''),
      (''mounts-high-water-pct'', ext_namespace env ix ''mounts-high-water-pct''),
      (''mounts-size-limit'', ext_namespace env ix ''mounts-size-limit''),
      (''compression'', ee_gate env (ext_namespace env ix ''compression'')),
      (''compression-level'', ee_gate env (ext_namespace env ix ''compression-level'')),
      (''cache-replica-writes'', ext_namespace env ix ''cache-replica-writes''),
      (''defrag-lwm-pct'', ext_namespace env ix ''defrag-lwm-pct''),
      (''defrag-queue-min'', ext_namespace env ix ''defrag-queue-min''),
      (''defrag-sleep'', ext_namespace env ix ''defrag-sleep''),
      (''flush-max-ms'', ext_namespace env ix ''flush-max-ms''),
      (''reject-non-xdr-writes'', ext_namespace env ix ''reject-non-xdr-writes''),
      (''reject-xdr-writes'', ext_namespace env ix ''reject-xdr-writes''),
      (''allow-ttl-without-nsup'', ext_namespace env ix ''allow-ttl-without-nsup''),
      (''ignore-migrate-fill-delay'', ee_gate env (ext_namespace env ix ''ignore-migrate-fill-delay'')),
      (''strong-consistency-allow-expunge'', ext_namespace env ix ''strong-consistency-allow-expunge''),
      (''disable-write-dup-res'', ext_namespace env ix ''disable-write-dup-res''),
      (''disallow-null-setname'', ext_namespace env ix ''disallow-null-setname''),
      (''enable-benchmarks-batch-sub'', ns_hist_toggle ix BATCH_SUB_BENCHMARKS),
      (''enable-benchmarks-ops-sub'', ns_hist_toggle ix OPS_SUB_BENCHMARKS),
      (''enable-benchmarks-read'', ns_hist_toggle ix READ_BENCHMARKS),
      (''enable-benchmarks-storage'', ns_hist_toggle ix STORAGE_BENCHMARKS),
      (''enable-benchmarks-udf'', ns_hist_toggle ix UDF_BENCHMARKS),
      (''enable-benchmarks-udf-sub'', ns_hist_toggle ix UDF_SUB_BENCHMARKS),
      (''enable-benchmarks-write'', ns_hist_toggle ix WRITE_BENCHMARKS),
      (''enable-hist-proxy'', ns_hist_toggle ix PROXY_HIST),
      (''read-page-cache'', ext_namespace env ix ''read-page-cache''),
      (''max-write-cache'', ext_namespace env ix ''max-write-cache''),
      (''min-avail-pct'', ext_namespace env ix ''min-avail-pct''),
      (''post-write-queue'', ext_namespace env ix ''post-write-queue''),
      (''read-consistency-level-override'', ext_namespace env ix ''read-consistency-level-override''),
      (''write-commit-level-override'', ext_namespace env ix ''write-commit-level-override''),
      (''geo2dsphere-within-min-level'', ext_namespace env ix ''geo2dsphere-within-min-level''),
      (''geo2dsphere-within-max-level'', ext_namespace env ix ''geo2dsphere-within-max-level''),
      (''geo2dsphere-within-max-cells'', ext_namespace env ix ''geo2dsphere-within-max-cells''),
      (''prefer-uniform-balance'', ee_gate env (ext_namespace env ix ''prefer-uniform-balance''))]"

subsection \<open>The command\<close>

text \<open>
  An \<^verbatim>\<open>else if\<close> chain: the first key of the table that \<^verbatim>\<open>as_info_parameter_get\<close> finds
  in the parameters (return value 0, with the 1024-byte buffer \<^verbatim>\<open>context\<close>) selects the
  branch; when no key is found the final \<^verbatim>\<open>else\<close> jumps to \<^verbatim>\<open>Error\<close>.  The buffer is read
  only after a successful extraction has overwritten it, so its previous content does not
  matter.
\<close>

fun key_chain :: "(string \<times> 'o handler) list \<Rightarrow> string \<Rightarrow> 'o as_config \<Rightarrow> 'o as_config outcome" where
  "key_chain [] params g = Rejected g"
| "key_chain ((k, h) # rest) params g =
     (case as_info_parameter_get params k [] 1024 of
        (rv, v, len) \<Rightarrow> if rv = 0 then h v params g else key_chain rest params g)"

text \<open>
  Modelled from the spec: \<^verbatim>\<open>as_namespace_get_byname\<close>, declared outside the sources at hand,
  finds the configured namespace of a given name, or none for an unknown namespace.  The
  result is the index of the namespace in \<^verbatim>\<open>g_config.namespaces\<close>.
\<close>

fun as_namespace_get_byname :: "string \<Rightarrow> as_namespace list \<Rightarrow> nat option" where
  "as_namespace_get_byname n [] = None"
| "as_namespace_get_byname n (ns # rest) =
     (if streq (ns_name ns) n then Some 0 else map_option Suc (as_namespace_get_byname n rest))"

text \<open>The namespace stanza (\<^verbatim>\<open>thr_info.c:2682-3581\<close>).\<close>

definition config_set_namespace :: "'o set_env \<Rightarrow> string \<Rightarrow> 'o as_config \<Rightarrow> 'o as_config outcome" where
  "config_set_namespace env params g =
     (case as_info_parameter_get params ''id'' [] 1024 of
        (rv, ns_id, len) \<Rightarrow>
          if rv \<noteq> 0 then Rejected g
          else
            (case as_namespace_get_byname ns_id (namespaces g) of
               None \<Rightarrow> Rejected g
             | Some ix \<Rightarrow>
                 (case as_info_parameter_get params ''set'' [] 1024 of
                    (rv, set_name, set_name_len) \<Rightarrow>
                      if rv = 0 then
                        (if set_name_len = 0 \<or> set_name_len \<ge> set_name_max_size env
                         then Rejected g
                         else
                           (case get_create_set env ix set_name g of
                              None \<Rightarrow> Rejected g
                            | Some g1 \<Rightarrow> key_chain (set_keys env ix set_name) params g1))
                      else key_chain (namespace_keys env ix) params g)))"

text \<open>
  The body of \<^verbatim>\<open>info_command_config_set_threadsafe\<close> up to the two exits
  (\<^verbatim>\<open>thr_info.c:2319-3603\<close>).
\<close>

definition config_set_apply :: "'o set_env \<Rightarrow> string \<Rightarrow> 'o as_config \<Rightarrow> 'o as_config outcome" where
  "config_set_apply env params g =
     (case as_info_parameter_get params ''context'' [] 1024 of
        (rv, context, len) \<Rightarrow>
          if rv \<noteq> 0 then Rejected g
          else if streq context ''service'' then key_chain (service_keys env) params g
          else if streq context ''network'' then key_chain (network_keys env) params g
          else if streq context ''namespace'' then config_set_namespace env params g
          else if streq context ''security'' then
            (if enterprise_only env then Rejected g else security_set_config env params g)
          else if streq context ''xdr'' then
            (if enterprise_only env then Rejected g else xdr_set_config env params g)
          else Rejected g)"

text \<open>
  The two exits (\<^verbatim>\<open>thr_info.c:3605-3611\<close>): the text appended to the reply, and the state.
  No other statement of the function writes to the reply or returns.
\<close>

definition info_command_config_set_threadsafe ::
  "'o set_env \<Rightarrow> string \<Rightarrow> 'o as_config \<Rightarrow> string \<times> 'o as_config" where
  "info_command_config_set_threadsafe env params g =
     (case config_set_apply env params g of
        Applied g' \<Rightarrow> (''ok'', g')
      | Rejected g' \<Rightarrow> (''error'', g'))"

text \<open>No key of a table is found in the parameters.\<close>

definition no_key_found :: "(string \<times> 'o handler) list \<Rightarrow> string \<Rightarrow> bool" where
  "no_key_found table params =
     list_all (\<lambda>(k, h). fst (as_info_parameter_get params k [] 1024) \<noteq> 0) table"

text \<open>The context named by the parameters, when there is one.\<close>

definition context_is :: "string \<Rightarrow> string \<Rightarrow> bool" where
  "context_is params c =
     (case as_info_parameter_get params ''context'' [] 1024 of
        (rv, context, len) \<Rightarrow> rv = 0 \<and> streq context c)"

definition known_contexts :: "string list" where
  "known_contexts = [''service'', ''network'', ''namespace'', ''security'', ''xdr'']"

text \<open>The branch an \<^verbatim>\<open>else if\<close> chain selects: its key, its body and the extracted value.\<close>

fun first_key :: "(string \<times> 'o handler) list \<Rightarrow> string \<Rightarrow> (string \<times> 'o handler \<times> string) option" where
  "first_key [] params = None"
| "first_key ((k, h) # rest) params =
     (case as_info_parameter_get params k [] 1024 of
        (rv, v, len) \<Rightarrow> if rv = 0 then Some (k, h, v) else first_key rest params)"

text \<open>The text of the reply for an outcome.\<close>

definition reply_of :: "'c outcome \<Rightarrow> string" where
  "reply_of r = (case r of Applied c \<Rightarrow> ''ok'' | Rejected c \<Rightarrow> ''error'')"

text \<open>
  The parameters name the namespace at index \<open>ix\<close> and no set, so that the namespace
  stanza goes on to the chain of namespace keys.
\<close>

definition namespace_selected :: "string \<Rightarrow> 'o as_config \<Rightarrow> nat \<Rightarrow> bool" where
  "namespace_selected params g ix =
     (context_is params ''namespace'' \<and>
      (case as_info_parameter_get params ''id'' [] 1024 of
         (rv, ns_id, len) \<Rightarrow> rv = 0 \<and> as_namespace_get_byname ns_id (namespaces g) = Some ix) \<and>
      fst (as_info_parameter_get params ''set'' [] 1024) \<noteq> 0)"

text \<open>An outcome that falls through to the end, in a state with a given property.\<close>

definition applied_with :: "'c outcome \<Rightarrow> ('c \<Rightarrow> bool) \<Rightarrow> bool" where
  "applied_with r P = (case r of Applied c \<Rightarrow> P c | Rejected c \<Rightarrow> False)"

definition rejected_with :: "'c outcome \<Rightarrow> ('c \<Rightarrow> bool) \<Rightarrow> bool" where
  "rejected_with r P = (case r of Applied c \<Rightarrow> False | Rejected c \<Rightarrow> P c)"

text \<open>
  An environment and a state for worked examples: the community edition, parsers that
  know a few numerals, every branch that is not spelled out accepting, one namespace
  \<^verbatim>\<open>test\<close> with 4096 bytes of memory, eight info workers, all histograms disabled and
  holding old counts.
\<close>

definition demo_hist :: histogram where
  "demo_hist = \<lparr>hist_scale = HIST_MILLISECONDS, hist_counts = [5, 0, 2]\<rparr>"

definition demo_namespace :: as_namespace where
  "demo_namespace =
     \<lparr>ns_name = ''test'', memory_size = 4096, evict_tenths_pct = 5, ns_hist_enabled = (\<lambda>t. False),
      ns_hists = (\<lambda>t. [demo_hist])\<rparr>"

definition demo_config :: "unit as_config" where
  "demo_config =
     \<lparr>pool = as_info_init_pool 8, microsecond_histograms = False,
      hist_enabled = (\<lambda>t. False), hists = (\<lambda>t. [demo_hist]),
      namespaces = [demo_namespace], other = ()\<rparr>"

definition demo_set_env :: "unit set_env" where
  "demo_set_env =
     \<lparr>enterprise_only = True,
      str_atoi = (\<lambda>s. if s = ''3'' then Some 3 else if s = ''999'' then Some 999 else None),
      str_atoi_u64 = (\<lambda>s. if s = ''4096'' then Some 4096 else if s = ''8192'' then Some 8192
                           else if s = ''1000'' then Some 1000 else None),
      libc_atoi = (\<lambda>s. if s = ''7'' then 7 else 0),
      libc_atoll = (\<lambda>s. if s = ''7'' then 7 else 0),
      set_stop_writes_count = (\<lambda>ix s n g. g),
      max_info_threads = 128, set_name_max_size = 64,
      ext_service = (\<lambda>k v params g. Applied g),
      ext_network = (\<lambda>k v params g. Applied g),
      ext_namespace = (\<lambda>ix k v params g. Applied g),
      ext_set = (\<lambda>ix s k v params g. Applied g),
      get_create_set = (\<lambda>ix s g. Some g),
      security_set_config = (\<lambda>params g. Applied g),
      xdr_set_config = (\<lambda>params g. Applied g)\<rparr>"

section \<open>Part II: proofs\<close>

subsection \<open>C strings\<close>

lemma cstr_id: "NUL \<notin> set s \<Longrightarrow> cstr s = s"
  unfolding cstr_def by (induction s) auto

lemma cstr_append: "NUL \<notin> set s \<Longrightarrow> cstr (s @ t) = s @ cstr t"
  unfolding cstr_def by (induction s) auto

subsection \<open>The parameter extractor\<close>

lemma param_scan_outcome: "param_outcome val B (param_scan p B val tok s)"
  by (induction s arbitrary: tok) (auto simp: param_outcome_def Let_def)

lemma param_scan_key:
  "CHR ''='' \<notin> set k \<Longrightarrow> CHR '';'' \<notin> set k \<Longrightarrow>
   param_scan (tok @ k) B val tok (k @ CHR ''='' # rest) =
     (let v = takeWhile (\<lambda>c. c \<noteq> CHR '';'') rest in
      if B \<le> int (length v) then (- 2, val, B) else (0, v, int (length v)))"
proof (induction k arbitrary: tok)
  case Nil
  then show ?case by simp
next
  case (Cons a k)
  from Cons.prems have "a \<noteq> CHR ''=''" "a \<noteq> CHR '';''" by auto
  moreover have "param_scan ((tok @ [a]) @ k) B val (tok @ [a]) (k @ CHR ''='' # rest) =
     (let v = takeWhile (\<lambda>c. c \<noteq> CHR '';'') rest in
      if B \<le> int (length v) then (- 2, val, B) else (0, v, int (length v)))"
    using Cons.prems by (intro Cons.IH) auto
  ultimately show ?case by simp
qed

lemma param_scan_missing_indep:
  "fst (param_scan p B val tok s) = - 1 \<Longrightarrow> fst (param_scan p B' val' tok s) = - 1"
  by (induction s arbitrary: tok) (auto simp: Let_def split: if_splits)

lemma param_scan_skip:
  "fst (param_scan p B val tok pre) = - 1 \<Longrightarrow>
   param_scan p B val tok (pre @ CHR '';'' # s) = param_scan p B val [] s"
  by (induction pre arbitrary: tok) (auto simp: Let_def split: if_splits)

lemma takeWhile_value:
  "CHR '';'' \<notin> set v \<Longrightarrow> suf = [] \<or> hd suf = CHR '';'' \<Longrightarrow>
   takeWhile (\<lambda>c. c \<noteq> CHR '';'') (v @ suf) = v"
  by (induction v) (cases suf; auto)+

lemma cstr_value_suffix:
  "NUL \<notin> set v \<Longrightarrow> suffix_ok suf \<Longrightarrow>
   \<exists>suf'. cstr (v @ suf) = v @ suf' \<and> (suf' = [] \<or> hd suf' = CHR '';'')"
proof -
  assume v: "NUL \<notin> set v" and s: "suffix_ok suf"
  have eq: "cstr (v @ suf) = v @ cstr suf" using v by (rule cstr_append)
  have "cstr suf = [] \<or> hd (cstr suf) = CHR '';''"
    using s by (cases suf) (auto simp: suffix_ok_def cstr_def NUL_def)
  with eq show ?thesis by blast
qed

lemma param_get_pair:
  assumes wf: "pair_wf k v" and pre: "prefix_without k pre" and suf: "suffix_ok suf"
  shows "as_info_parameter_get (pre @ k @ CHR ''='' # v @ suf) k val B =
           (if B \<le> int (length v) then (- 2, val, B) else (0, v, int (length v)))"
proof -
  from wf have k: "CHR ''='' \<notin> set k" "CHR '';'' \<notin> set k" "NUL \<notin> set k"
    and v: "CHR '';'' \<notin> set v" "NUL \<notin> set v"
    by (auto simp: pair_wf_def)
  obtain suf' where suf': "cstr (v @ suf) = v @ suf'" "suf' = [] \<or> hd suf' = CHR '';''"
    using cstr_value_suffix [OF v(2) suf] by blast
  have tw: "takeWhile (\<lambda>c. c \<noteq> CHR '';'') (v @ suf') = v"
    using v(1) suf'(2) by (rule takeWhile_value)
  have tail: "cstr (k @ CHR ''='' # v @ suf) = k @ CHR ''='' # v @ suf'"
  proof -
    have "cstr (k @ CHR ''='' # v @ suf) = k @ cstr (CHR ''='' # v @ suf)"
      using k(3) by (rule cstr_append)
    also have "cstr (CHR ''='' # v @ suf) = CHR ''='' # cstr (v @ suf)"
      by (simp add: cstr_def NUL_def)
    finally show ?thesis using suf'(1) by simp
  qed
  have core: "param_scan k B val [] (k @ CHR ''='' # v @ suf') =
                (if B \<le> int (length v) then (- 2, val, B) else (0, v, int (length v)))"
    using param_scan_key [OF k(1) k(2), of "[]" B val "v @ suf'"] tw by (simp add: Let_def)
  show ?thesis
  proof (cases "pre = []")
    case True
    then show ?thesis
      using core tail k(3) by (simp add: as_info_parameter_get_def cstr_id)
  next
    case False
    with pre have p: "last pre = CHR '';''" "NUL \<notin> set pre"
      "fst (as_info_parameter_get (butlast pre) k [] 0) = - 1"
      by (auto simp: prefix_without_def)
    from False p(1) have split: "pre = butlast pre @ [CHR '';'']"
      by (metis append_butlast_last_id)
    have nb: "NUL \<notin> set (butlast pre)"
      using p(2) by (meson in_set_butlastD)
    have miss: "fst (param_scan k B val [] (butlast pre)) = - 1"
      using p(3) k(3) nb param_scan_missing_indep
      by (simp add: as_info_parameter_get_def cstr_id)
    have "cstr (pre @ k @ CHR ''='' # v @ suf) = pre @ k @ CHR ''='' # v @ suf'"
      using cstr_append [OF p(2)] tail by simp
    also have "\<dots> = butlast pre @ CHR '';'' # (k @ CHR ''='' # v @ suf')"
      using split by (metis append_Cons append_Nil append_assoc)
    finally have whole: "cstr (pre @ k @ CHR ''='' # v @ suf) =
        butlast pre @ CHR '';'' # (k @ CHR ''='' # v @ suf')" .
    show ?thesis
      using param_scan_skip [OF miss] core whole k(3)
      by (simp add: as_info_parameter_get_def cstr_id)
  qed
qed

text \<open>
  The boundary as the claim C4 words it fails: the bound is the size of the caller's
  buffer, which must also hold the closing NUL, so a value as long as the bound is
  refused.  Here the value \<open>ab\<close> has length 2, the bound is 2, and the result is -2.
\<close>

theorem as_info_parameter_get_exact_bound_refused:
  "int (length ''ab'') = 2 \<and> as_info_parameter_get ''k=ab'' ''k'' [] 2 = (- 2, [], 2)"
  by (simp add: as_info_parameter_get_def cstr_def NUL_def)

text \<open>
  C4 (as amended).  For every parameter string, key, buffer and bound \<open>B\<close> the extractor
  returns exactly one of found (0), missing (-1) and too long (-2); when it returns 0 the
  copied value has the updated length, which is strictly below \<open>B\<close>; otherwise buffer and
  length are untouched.  For a well-formed pair \<open>k=v\<close> standing after pairs for other
  keys, the value is accepted exactly when its length is at most \<open>B - 1\<close>: a value of
  length \<open>B - 1\<close> is found, a value of length \<open>B\<close> is too long and nothing is copied.
\<close>

theorem as_info_parameter_get_bound:
  "param_outcome val B (as_info_parameter_get ps p val B) \<and>
   (pair_wf k v \<and> prefix_without k pre \<and> suffix_ok suf \<longrightarrow>
      as_info_parameter_get (pre @ k @ CHR ''='' # v @ suf) k val (int (length v) + 1)
        = (0, v, int (length v)) \<and>
      as_info_parameter_get (pre @ k @ CHR ''='' # v @ suf) k val (int (length v))
        = (- 2, val, int (length v)))"
proof (intro conjI impI)
  show "param_outcome val B (as_info_parameter_get ps p val B)"
    unfolding as_info_parameter_get_def by (rule param_scan_outcome)
next
  assume h: "pair_wf k v \<and> prefix_without k pre \<and> suffix_ok suf"
  then show "as_info_parameter_get (pre @ k @ CHR ''='' # v @ suf) k val (int (length v) + 1)
        = (0, v, int (length v))"
    using param_get_pair [of k v pre suf val "int (length v) + 1"] by simp
next
  assume h: "pair_wf k v \<and> prefix_without k pre \<and> suffix_ok suf"
  then show "as_info_parameter_get (pre @ k @ CHR ''='' # v @ suf) k val (int (length v))
        = (- 2, val, int (length v))"
    using param_get_pair [of k v pre suf val "int (length v)"] by simp
qed

theorem as_info_parameter_get_bound_witness:
  "pair_wf ''k'' ''ab'' \<and> prefix_without ''k'' ''a=1;'' \<and> suffix_ok '';c=d'' \<and>
   param_outcome ''zz'' 3 (as_info_parameter_get ''a=1;k=ab;c=d'' ''k'' ''zz'' 3) \<and>
   as_info_parameter_get ''a=1;k=ab;c=d'' ''k'' ''zz'' 3 = (0, ''ab'', 2) \<and>
   as_info_parameter_get ''a=1;k=ab;c=d'' ''k'' ''zz'' 2 = (- 2, ''zz'', 2)"
proof -
  have wf: "pair_wf ''k'' ''ab''"
    by (simp add: pair_wf_def NUL_def)
  have pre: "prefix_without ''k'' ''a=1;''"
    by (simp add: prefix_without_def as_info_parameter_get_def cstr_def NUL_def)
  have suf: "suffix_ok '';c=d''"
    by (simp add: suffix_ok_def)
  show ?thesis
    using as_info_parameter_get_bound
      [of "''zz''" 3 "''a=1;k=ab;c=d''" "''k''" "''k''" "''ab''" "''a=1;''" "'';c=d''"]
      wf pre suf
    by (simp add: param_outcome_def)
qed

subsection \<open>The dispatcher\<close>

lemma find_none: "(\<forall>x \<in> set xs. \<not> P x) \<Longrightarrow> find P xs = None"
  by (simp add: find_None_iff)

lemma info_lookup_unregistered:
  "lookup_unregistered reg name \<Longrightarrow> info_lookup reg name acc = acc"
  by (cases acc) (simp add: lookup_unregistered_def info_lookup_def find_none Let_def)

lemma info_run_command_unregistered:
  "command_unregistered reg name \<Longrightarrow> info_run_command reg sec name param acc = acc"
  by (cases acc) (simp add: command_unregistered_def info_run_command_def find_none)

lemma EOL_not_colon: "EOL \<noteq> CHR '':''"
  by (simp add: EOL_def)

lemma loop_lookup_line:
  "EOL \<notin> set line \<Longrightarrow> CHR '':'' \<notin> set line \<Longrightarrow>
   info_some_loop reg sec tok (line @ EOL # rest) acc =
     info_some_loop reg sec [] rest (info_lookup reg (tok @ line) acc)"
  by (induction line arbitrary: tok) auto

lemma loop_command_line:
  assumes "EOL \<notin> set nm" "CHR '':'' \<notin> set nm" "EOL \<notin> set params"
  shows "info_some_loop reg sec tok (nm @ CHR '':'' # params @ EOL # rest) acc =
     info_some_loop reg sec [] rest (info_run_command reg sec (tok @ nm) params acc)"
  using assms(1,2)
proof (induction nm arbitrary: tok)
  case Nil
  have d: "dropWhile (\<lambda>c. c \<noteq> EOL) (params @ EOL # rest) = EOL # rest"
    using assms(3) by (induction params) auto
  have t: "takeWhile (\<lambda>c. c \<noteq> EOL) (params @ EOL # rest) = params"
    using assms(3) by (induction params) auto
  show ?case using d t EOL_not_colon by simp
next
  case (Cons a nm)
  then show ?case by auto
qed

text \<open>
  After a prefix of whole lines the loop stands at the start of a line with an empty
  token, whatever the prefix made it append.
\<close>

lemma loop_append:
  "pre \<noteq> [] \<Longrightarrow> last pre = EOL \<Longrightarrow>
   info_some_loop reg sec tok (pre @ s) acc =
     info_some_loop reg sec [] s (info_some_loop reg sec tok pre acc)"
proof (induction reg sec tok pre acc rule: info_some_loop.induct)
  case (1 reg sec tok acc)
  then show ?case by simp
next
  case (2 reg sec tok x rest acc)
  show ?case
  proof (cases "rest = []")
    case True
    with 2(4,5) have "x = EOL" by simp
    with True show ?thesis by simp
  next
    case False
    with 2(5) have lr: "last rest = EOL" by simp
    show ?thesis
    proof (cases "x = EOL")
      case True
      then show ?thesis using 2(1) [OF True False lr] by simp
    next
      case nE: False
      show ?thesis
      proof (cases "x = CHR '':''")
        case c: True
        have mem: "EOL \<in> set rest" using False lr by (metis last_in_set)
        obtain e rest' where dw: "dropWhile (\<lambda>c. c \<noteq> EOL) rest = e # rest'"
          using mem by (metis (mono_tags, lifting) dropWhile_eq_Nil_conv neq_Nil_conv)
        have dwa: "dropWhile (\<lambda>c. c \<noteq> EOL) (rest @ s) = e # (rest' @ s)"
          using mem dw by (simp add: dropWhile_append1)
        have twa: "takeWhile (\<lambda>c. c \<noteq> EOL) (rest @ s) = takeWhile (\<lambda>c. c \<noteq> EOL) rest"
          using mem by (simp add: takeWhile_append1)
        show ?thesis
        proof (cases "rest' = []")
          case True
          then show ?thesis using nE c dw dwa twa by simp
        next
          case r: False
          have "last rest' = EOL"
            using lr r dw
            by (metis (no_types, lifting) last_appendR last_ConsR list.simps(3)
                takeWhile_dropWhile_id)
          with 2(2) [OF nE c dw r] show ?thesis using nE c dw dwa twa by simp
        qed
      next
        case nc: False
        then show ?thesis using 2(3) [OF nE nc False lr] nE by simp
      qed
    qed
  qed
qed

lemma loop_after_prefix:
  "whole_lines pre \<Longrightarrow>
   info_some_loop reg sec [] (pre @ s) acc =
     info_some_loop reg sec [] s (info_some_loop reg sec [] pre acc)"
  by (cases "pre = []") (simp_all add: whole_lines_def loop_append)

text \<open>
  C10.  On an authenticated connection, a lookup line whose name is in none of the
  static, dynamic and tree tables (the tree table being consulted only for a name that
  holds a \<^verbatim>\<open>/\<close>), and a command line whose name is not in the command table, leave no
  trace: the request with the line, at any place after whole lines, gives the same reply
  text and the same state as the request without it.  So the line appends no byte, and
  the lines after it are processed as if it had not been there.
\<close>

theorem info_some_unregistered_line_skipped:
  assumes "check_auth sec = AS_OK" and "whole_lines pre"
  shows "(EOL \<notin> set line \<and> CHR '':'' \<notin> set line \<and> lookup_unregistered reg line \<longrightarrow>
            info_some reg sec (pre @ line @ EOL # rest) acc = info_some reg sec (pre @ rest) acc) \<and>
         (EOL \<notin> set nm \<and> CHR '':'' \<notin> set nm \<and> EOL \<notin> set params \<and>
          command_unregistered reg nm \<longrightarrow>
            info_some reg sec (pre @ nm @ CHR '':'' # params @ EOL # rest) acc =
              info_some reg sec (pre @ rest) acc)"
proof (intro conjI impI)
  assume h: "EOL \<notin> set line \<and> CHR '':'' \<notin> set line \<and> lookup_unregistered reg line"
  have "info_some_loop reg sec [] (line @ EOL # rest) acc' = info_some_loop reg sec [] rest acc'"
    for acc'
    using h loop_lookup_line [of line reg sec "[]" rest acc']
    by (simp add: info_lookup_unregistered)
  then show "info_some reg sec (pre @ line @ EOL # rest) acc = info_some reg sec (pre @ rest) acc"
    using assms
      loop_after_prefix [of pre reg sec "line @ EOL # rest" acc]
      loop_after_prefix [of pre reg sec rest acc]
    by (simp add: info_some_def)
next
  assume h: "EOL \<notin> set nm \<and> CHR '':'' \<notin> set nm \<and> EOL \<notin> set params \<and>
             command_unregistered reg nm"
  have "info_some_loop reg sec [] (nm @ CHR '':'' # params @ EOL # rest) acc' =
        info_some_loop reg sec [] rest acc'" for acc'
    using h loop_command_line [of nm params reg sec "[]" rest acc']
    by (simp add: info_run_command_unregistered)
  then show "info_some reg sec (pre @ nm @ CHR '':'' # params @ EOL # rest) acc =
             info_some reg sec (pre @ rest) acc"
    using assms
      loop_after_prefix [of pre reg sec "nm @ CHR '':'' # params @ EOL # rest" acc]
      loop_after_prefix [of pre reg sec rest acc]
    by (simp add: info_some_def)
qed

text \<open>
  The example: a tree name sent without a \<^verbatim>\<open>/\<close> and an unknown command, each between two
  lookups of a static value.
\<close>

lemmas demo_defs = demo_registry_def demo_security_def info_some_def info_lookup_def
  info_run_command_def streq_def cstr_def NUL_def EOL_def SEP_def TREE_SEP_def

theorem info_some_unregistered_line_skipped_witness:
  "check_auth demo_security = AS_OK \<and> whole_lines (''build'' @ [EOL]) \<and>
   EOL \<notin> set ''namespace'' \<and> CHR '':'' \<notin> set ''namespace'' \<and>
   lookup_unregistered demo_registry ''namespace'' \<and>
   EOL \<notin> set ''no-such'' \<and> CHR '':'' \<notin> set ''no-such'' \<and> EOL \<notin> set ''a=b'' \<and>
   command_unregistered demo_registry ''no-such'' \<and>
   info_some demo_registry demo_security
     (''build'' @ [EOL] @ ''namespace'' @ [EOL] @ ''build'' @ [EOL]) ([], ()) =
     (''build'' @ [SEP] @ ''6.0'' @ [EOL] @ ''build'' @ [SEP] @ ''6.0'' @ [EOL], ()) \<and>
   info_some demo_registry demo_security
     (''build'' @ [EOL] @ ''no-such:a=b'' @ [EOL] @ ''build'' @ [EOL]) ([], ()) =
     (''build'' @ [SEP] @ ''6.0'' @ [EOL] @ ''build'' @ [SEP] @ ''6.0'' @ [EOL], ())"
proof -
  have a: "check_auth demo_security = AS_OK" by (simp add: demo_security_def)
  have w: "whole_lines (''build'' @ [EOL])" by (simp add: whole_lines_def)
  have l: "EOL \<notin> set ''namespace'' \<and> CHR '':'' \<notin> set ''namespace'' \<and>
           lookup_unregistered demo_registry ''namespace''"
    by (simp add: lookup_unregistered_def demo_defs)
  have c: "EOL \<notin> set ''no-such'' \<and> CHR '':'' \<notin> set ''no-such'' \<and> EOL \<notin> set ''a=b'' \<and>
           command_unregistered demo_registry ''no-such''"
    by (simp add: command_unregistered_def demo_defs)
  have v: "info_some demo_registry demo_security (''build'' @ [EOL] @ ''build'' @ [EOL]) ([], ()) =
     (''build'' @ [SEP] @ ''6.0'' @ [EOL] @ ''build'' @ [SEP] @ ''6.0'' @ [EOL], ())"
    by (simp add: demo_defs)
  show ?thesis
    using info_some_unregistered_line_skipped
      [OF a w, of "''namespace''" demo_registry "''build'' @ [EOL]" "([], ())" "''no-such''" "''a=b''"]
      a w l c v
    by simp
qed

subsection \<open>The reply frame\<close>

lemma ff_mask: "(0xff :: 64 word) = mask 8"
  by (simp add: mask_eq_exp_minus_1)

lemma byte_of:
  "unat (ucast (drop_bit n (w :: 64 word) AND 0xff) :: 8 word) = unat w div 2 ^ n mod 256"
proof -
  have "(ucast (drop_bit n w AND 0xff) :: 8 word) = ucast (drop_bit n w)"
    unfolding ff_mask by (rule bit_word_eqI) (auto simp: bit_simps)
  moreover have "unat (ucast (drop_bit n w) :: 8 word) = unat (drop_bit n w) mod 256"
    by (simp add: unsigned_ucast_eq take_bit_eq_mod)
  moreover have "unat (drop_bit n w) = unat w div 2 ^ n"
    unfolding unat_drop_bit_eq by (simp add: drop_bit_eq_div)
  ultimately show ?thesis by simp
qed

lemma byte_of0: "unat (ucast ((w :: 64 word) AND 0xff) :: 8 word) = unat w mod 256"
  using byte_of [of 0 w] by simp

lemma be_sum:
  "(n div 16777216 mod 256) * 16777216 + (n div 65536 mod 256) * 65536 +
   (n div 256 mod 256) * 256 + n mod 256 = (n::nat) mod 4294967296"
proof -
  have a: "n mod 4294967296 = n mod 256 + 256 * (n div 256 mod 16777216)"
    using mod_mult2_eq [of n 256 16777216] by simp
  have b: "n div 256 mod 16777216 = n div 256 mod 256 + 256 * (n div 256 div 256 mod 65536)"
    using mod_mult2_eq [of "n div 256" 256 65536] by simp
  have c: "n div 256 div 256 mod 65536 =
           n div 256 div 256 mod 256 + 256 * (n div 256 div 256 div 256 mod 256)"
    using mod_mult2_eq [of "n div 256 div 256" 256 256] by simp
  have d: "n div 256 div 256 = n div 65536" "n div 256 div 256 div 256 = n div 16777216"
    by (simp_all add: div_mult2_eq [symmetric])
  show ?thesis using a b c d by simp
qed

lemma header_shape:
  "write_proto_header (replicate 8 0 @ body) =
     [2, 1, 0, 0,
      ucast (drop_bit 24 (of_nat (length body) :: 64 word) AND 0xff),
      ucast (drop_bit 16 (of_nat (length body) :: 64 word) AND 0xff),
      ucast (drop_bit 8 (of_nat (length body) :: 64 word) AND 0xff),
      ucast ((of_nat (length body) :: 64 word) AND 0xff)] @ body"
  by (simp add: write_proto_header_def Let_def numeral_eq_Suc)

lemma be32_len:
  "be32 [ucast (drop_bit 24 (of_nat n :: 64 word) AND 0xff),
         ucast (drop_bit 16 (of_nat n :: 64 word) AND 0xff),
         ucast (drop_bit 8 (of_nat n :: 64 word) AND 0xff),
         ucast ((of_nat n :: 64 word) AND 0xff)] = n mod 2 ^ 32"
proof -
  define m where "m = unat (of_nat n :: 64 word)"
  have m: "m = n mod 2 ^ 64" by (simp add: m_def unat_of_nat)
  have "be32 [ucast (drop_bit 24 (of_nat n :: 64 word) AND 0xff),
         ucast (drop_bit 16 (of_nat n :: 64 word) AND 0xff),
         ucast (drop_bit 8 (of_nat n :: 64 word) AND 0xff),
         ucast ((of_nat n :: 64 word) AND 0xff)] =
        (m div 16777216 mod 256) * 16777216 + (m div 65536 mod 256) * 65536 +
        (m div 256 mod 256) * 256 + m mod 256"
    unfolding be32_def m_def
    using byte_of [of 24 "of_nat n"] byte_of [of 16 "of_nat n"] byte_of [of 8 "of_nat n"]
      byte_of0 [of "of_nat n"]
    by simp
  also have "\<dots> = m mod 4294967296" by (rule be_sum)
  also have "\<dots> = n mod 2 ^ 32"
    unfolding m using mod_mod_cancel [of "2 ^ 32 :: nat" "2 ^ 64" n] by simp
  finally show ?thesis .
qed

lemma header_of_body:
  fixes body :: "8 word list"
  defines "r \<equiv> write_proto_header (replicate 8 0 @ body)"
  shows "length r = 8 + length body" "r ! 0 = 2" "r ! 1 = 1" "r ! 2 = 0" "r ! 3 = 0"
    "be32 (take 4 (drop 4 r)) = length body mod 2 ^ 32" "drop 8 r = body"
  unfolding r_def header_shape using be32_len [of "length body"] by simp_all

text \<open>
  C7.  Whatever the request, the frame the worker sends starts with the byte 2 (version)
  and the byte 1 (info type); bytes 2 and 3 stay zero; bytes 4 to 7 are the body length
  (the size of the buffer less the eight header bytes) written big-endian in 32 bits,
  so that reading them back gives the body length modulo \<open>2^32\<close>, and the body length
  itself for every body shorter than 4 GiB; the body follows unchanged.
\<close>

theorem thr_info_fn_header:
  "(let r = fst (thr_info_fn_request reg sec body st) in
      8 \<le> length r \<and> r ! 0 = 2 \<and> r ! 1 = 1 \<and> r ! 2 = 0 \<and> r ! 3 = 0 \<and>
      be32 (take 4 (drop 4 r)) = (length r - 8) mod 2 ^ 32 \<and>
      (length r - 8 < 2 ^ 32 \<longrightarrow> be32 (take 4 (drop 4 r)) = length r - 8))"
proof -
  obtain db st' where
    e: "(if body = [] then info_all reg sec ([], st) else info_some reg sec body ([], st)) = (db, st')"
    by (cases "if body = [] then info_all reg sec ([], st) else info_some reg sec body ([], st)")
  define b :: "8 word list" where "b = map of_char db"
  have r: "fst (thr_info_fn_request reg sec body st) = write_proto_header (replicate 8 0 @ b)"
    unfolding thr_info_fn_request_def e b_def by simp
  show ?thesis
    unfolding Let_def r using header_of_body [of b] by simp
qed

theorem thr_info_fn_header_witness:
  "length (fst (thr_info_fn_request demo_registry demo_security (''build'' @ [EOL]) ())) - 8
      < 2 ^ 32 \<and>
   be32 (take 4 (drop 4 (fst (thr_info_fn_request demo_registry demo_security
      (''build'' @ [EOL]) ())))) = 10"
proof -
  have len: "length (fst (thr_info_fn_request demo_registry demo_security (''build'' @ [EOL]) ()))
      = 18"
    by (simp add: thr_info_fn_request_def write_proto_header_def Let_def demo_defs)
  show ?thesis
    using thr_info_fn_header [of demo_registry demo_security "''build'' @ [EOL]" "()"] len
    by (simp add: Let_def)
qed

subsection \<open>The ticker's fabric rates\<close>

lemma unat_ticker_dt_sec:
  "unat (ticker_dt_sec d) = max 1 (unat d div 1000000000)"
proof -
  have a: "unat (d div 1000000000) = unat d div 1000000000"
    by (simp add: unat_div)
  have b: "(d div 1000000000 < 1) = (unat d div 1000000000 < 1)"
    using a by (simp add: word_less_nat_alt)
  show ?thesis
    unfolding ticker_dt_sec_def Let_def using a b by (auto simp: max_def)
qed

lemma unat_rate: "unat (b div ticker_dt_sec d) = rate_of b d"
  by (simp add: unat_div unat_ticker_dt_sec rate_of_def)

lemma dt_nonzero: "ticker_dt_sec d \<noteq> 0"
proof
  assume "ticker_dt_sec d = 0"
  then have "unat (ticker_dt_sec d) = 0" by simp
  then show False unfolding unat_ticker_dt_sec by simp
qed

text \<open>
  C9.  For every frame, with \<open>d\<close> the nanoseconds since the previous frame and \<open>rate\<close>
  the byte counts captured for the interval: the divisor is \<open>max 1 (d div 10^9)\<close>, never
  zero, and each of the eight rate fields that the statistics endpoint publishes holds
  the captured count of its channel and direction divided (as unsigned integers) by that
  divisor.
\<close>

theorem log_fabric_rate_published:
  "ticker_dt_sec d \<noteq> 0 \<and>
   unat (ticker_dt_sec d) = max 1 (unat d div 1000000000) \<and>
   map (\<lambda>(k, v). (k, unat v)) (info_get_stats_fabric (log_fabric_rate d rate st)) =
     [(''fabric_bulk_send_rate'', rate_of (s_bytes rate AS_FABRIC_CHANNEL_BULK) d),
      (''fabric_bulk_recv_rate'', rate_of (r_bytes rate AS_FABRIC_CHANNEL_BULK) d),
      (''fabric_ctrl_send_rate'', rate_of (s_bytes rate AS_FABRIC_CHANNEL_CTRL) d),
      (''fabric_ctrl_recv_rate'', rate_of (r_bytes rate AS_FABRIC_CHANNEL_CTRL) d),
      (''fabric_meta_send_rate'', rate_of (s_bytes rate AS_FABRIC_CHANNEL_META) d),
      (''fabric_meta_recv_rate'', rate_of (r_bytes rate AS_FABRIC_CHANNEL_META) d),
      (''fabric_rw_send_rate'', rate_of (s_bytes rate AS_FABRIC_CHANNEL_RW) d),
      (''fabric_rw_recv_rate'', rate_of (r_bytes rate AS_FABRIC_CHANNEL_RW) d)]"
  by (simp add: dt_nonzero unat_ticker_dt_sec info_get_stats_fabric_def log_fabric_rate_def
      Let_def unat_rate)

subsection \<open>Secondary-index creation\<close>

lemma fsk_inv_step:
  assumes "fsk_inv ns name k items fsk"
  shows "fsk_inv ns name k (items @ [item]) (find_sindex_key_item fsk item)"
proof (cases "sindex_in_ns ns item")
  case False
  then have "find_sindex_key_item fsk item = fsk"
    using assms by (auto simp: find_sindex_key_item_def sindex_in_ns_def fsk_inv_def
        split: option.splits)
  moreover have "sindex_key_present ns k (items @ [item]) = sindex_key_present ns k items"
    "sindex_count ns (items @ [item]) = sindex_count ns items"
    "sindex_name_matches ns name (items @ [item]) = sindex_name_matches ns name items"
    using False by (auto simp: sindex_key_present_def sindex_count_def sindex_name_matches_def)
  ultimately show ?thesis using assms by (simp add: fsk_inv_def)
next
  case True
  then obtain v where v: "item_value item = Some v" by (auto simp: sindex_in_ns_def)
  have cnt: "sindex_count ns (items @ [item]) = sindex_count ns items + 1"
    using True by (simp add: sindex_count_def)
  have pres: "sindex_key_present ns k (items @ [item]) =
                (sindex_key_present ns k items \<or> streq k (item_key item))"
    using True by (auto simp: sindex_key_present_def)
  have mt: "sindex_name_matches ns name (items @ [item]) =
              (if streq name v then sindex_name_matches ns name items @ [item]
               else sindex_name_matches ns name items)"
    using True v by (simp add: sindex_name_matches_def sindex_has_name_def)
  show ?thesis
  proof (cases "streq name v")
    case nm: False
    show ?thesis
      using assms True v nm cnt pres mt
      by (auto simp: fsk_inv_def find_sindex_key_item_def sindex_in_ns_def Let_def
          split: option.splits)
  next
    case nm: True
    show ?thesis
    proof (cases "sindex_name_matches ns name items")
      case Nil
      then show ?thesis
        using assms True v nm cnt pres mt
        by (auto simp: fsk_inv_def find_sindex_key_item_def sindex_in_ns_def Let_def
            split: option.splits)
    next
      case (Cons a list)
      then show ?thesis
        using assms True v nm cnt pres mt
        by (cases list)
           (auto simp: fsk_inv_def find_sindex_key_item_def sindex_in_ns_def Let_def
            split: option.splits)
    qed
  qed
qed

lemma fsk_inv_foldl:
  "fsk_inv ns name k pre fsk \<Longrightarrow>
   fsk_inv ns name k (pre @ items) (foldl find_sindex_key_item fsk items)"
proof (induction items arbitrary: pre fsk)
  case Nil
  then show ?case by simp
next
  case (Cons a items)
  from fsk_inv_step [OF Cons.prems, of a]
  have "fsk_inv ns name k ((pre @ [a]) @ items)
          (foldl find_sindex_key_item (find_sindex_key_item fsk a) items)"
    by (rule Cons.IH)
  then show ?case by simp
qed

lemma find_sindex_key_result:
  "fsk_inv ns name k items
     (find_sindex_key items
        \<lparr>fsk_ns_name = ns, fsk_index_name = name, fsk_smd_key = Some k, found_key = fk,
         n_name_matches = a, n_indexes = b, has_smd_key = c\<rparr>)"
proof -
  have "fsk_inv ns name k []
     \<lparr>fsk_ns_name = ns, fsk_index_name = name, fsk_smd_key = Some k, found_key = None,
      n_name_matches = 0, n_indexes = 0, has_smd_key = False\<rparr>"
    by (simp add: fsk_inv_def sindex_key_present_def sindex_count_def sindex_name_matches_def)
  from fsk_inv_foldl [OF this, of items] show ?thesis
    by (simp add: find_sindex_key_def)
qed

lemma cstr_idem: "cstr (cstr s) = cstr s"
  by (simp add: cstr_def)

lemma streq_cstr: "streq (cstr a) b = streq a b"
  by (simp add: streq_def cstr_idem)

lemma sindex_create_cases:
  fixes max_n set_ok items ns name k
  defines "R \<equiv> info_command_sindex_create_smd max_n set_ok items ns name k"
    and "m \<equiv> sindex_name_matches ns name items"
    and "call \<equiv> Smd_set_blocking AS_SMD_MODULE_SINDEX (cstr k) (cstr name) 0"
  shows "m = [it] \<Longrightarrow> streq (item_key it) k \<Longrightarrow> R = (Reply_OK, None)"
    and "m = [it] \<Longrightarrow> \<not> streq (item_key it) k \<Longrightarrow>
           R = (Reply_FAIL AS_ERR_SINDEX_FOUND msg_different_definition, None)"
    and "2 \<le> length m \<Longrightarrow> R = (Reply_FAIL AS_ERR_SINDEX_FOUND msg_multiple_definitions, None)"
    and "m = [] \<Longrightarrow> \<not> sindex_key_present ns k items \<Longrightarrow> max_n \<le> sindex_count ns items \<Longrightarrow>
           R = (Reply_FAIL AS_ERR_SINDEX_MAX_COUNT ''already at sindex definition limit'', None)"
    and "m = [] \<Longrightarrow> sindex_key_present ns k items \<or> sindex_count ns items < max_n \<Longrightarrow>
           R = (if set_ok then Reply_OK else Reply_FAIL AS_ERR_TIMEOUT ''timeout'', Some call)"
proof -
  define fsk where "fsk = find_sindex_key items
     \<lparr>fsk_ns_name = ns, fsk_index_name = name, fsk_smd_key = Some k, found_key = None,
      n_name_matches = 0, n_indexes = 0, has_smd_key = False\<rparr>"
  have inv: "fsk_inv ns name k items fsk"
    unfolding fsk_def by (rule find_sindex_key_result)
  have R: "R = (case found_key fsk of
           Some fk \<Rightarrow>
             if \<not> streq fk k
             then (Reply_FAIL AS_ERR_SINDEX_FOUND msg_different_definition, None)
             else (Reply_OK, None)
         | None \<Rightarrow>
             if n_name_matches fsk > 1
             then (Reply_FAIL AS_ERR_SINDEX_FOUND msg_multiple_definitions, None)
             else if \<not> has_smd_key fsk \<and> n_indexes fsk \<ge> max_n
             then (Reply_FAIL AS_ERR_SINDEX_MAX_COUNT ''already at sindex definition limit'', None)
             else if \<not> set_ok
             then (Reply_FAIL AS_ERR_TIMEOUT ''timeout'', Some call)
             else (Reply_OK, Some call))"
    unfolding R_def call_def info_command_sindex_create_smd_def fsk_def Let_def by simp
  show "m = [it] \<Longrightarrow> streq (item_key it) k \<Longrightarrow> R = (Reply_OK, None)"
    using inv unfolding R fsk_inv_def m_def by (simp add: streq_cstr)
  show "m = [it] \<Longrightarrow> \<not> streq (item_key it) k \<Longrightarrow>
           R = (Reply_FAIL AS_ERR_SINDEX_FOUND msg_different_definition, None)"
    using inv unfolding R fsk_inv_def m_def by (simp add: streq_cstr)
  show "2 \<le> length m \<Longrightarrow> R = (Reply_FAIL AS_ERR_SINDEX_FOUND msg_multiple_definitions, None)"
  proof -
    assume l: "2 \<le> length m"
    then obtain a b rest where "m = a # b # rest"
      by (cases m; cases "tl m") auto
    then show ?thesis
      using inv unfolding R fsk_inv_def m_def by simp
  qed
  show "m = [] \<Longrightarrow> \<not> sindex_key_present ns k items \<Longrightarrow> max_n \<le> sindex_count ns items \<Longrightarrow>
           R = (Reply_FAIL AS_ERR_SINDEX_MAX_COUNT ''already at sindex definition limit'', None)"
    using inv unfolding R fsk_inv_def m_def by simp
  show "m = [] \<Longrightarrow> sindex_key_present ns k items \<or> sindex_count ns items < max_n \<Longrightarrow>
           R = (if set_ok then Reply_OK else Reply_FAIL AS_ERR_TIMEOUT ''timeout'', Some call)"
    using inv unfolding R fsk_inv_def m_def by auto
qed

text \<open>
  The first case of claim C1 as worded fails.  In the snapshot \<open>two_same_name\<close> the exact
  composed key \<^verbatim>\<open>ns1|s|a||0|1\<close> is present, under the requested name, yet a second entry
  carries the same name: the reply is the name-collision failure, not success.
\<close>

theorem sindex_create_same_key_not_always_ok:
  "sindex_key_present ''ns1'' ''ns1|s|a||0|1'' two_same_name \<and>
   info_command_sindex_create_smd 256 True two_same_name ''ns1'' ''idx'' ''ns1|s|a||0|1'' =
     (Reply_FAIL AS_ERR_SINDEX_FOUND msg_multiple_definitions, None)"
  by (simp add: sindex_key_present_def sindex_in_ns_def two_same_name_def streq_def cstr_def
      NUL_def info_command_sindex_create_smd_def find_sindex_key_def find_sindex_key_item_def
      Let_def)

text \<open>
  C1 (as amended).  With \<open>m\<close> the live entries of the namespace that carry the requested
  index name, the decision of sindex-create against the snapshot is:
  \<^item> \<open>m\<close> is a single entry and its key is the composed key: success, no SMD write;
  \<^item> \<open>m\<close> is a single entry under another key: found, "different definition";
  \<^item> \<open>m\<close> has two or more entries: found, "multiple definitions", whether or not one of
    them has the composed key;
  \<^item> \<open>m\<close> is empty, the composed key is absent and the namespace holds \<open>max_n\<close> or more
    definitions: max-count;
  \<^item> otherwise (\<open>m\<close> empty, and the key present or the namespace below the cap): the call
    \<^verbatim>\<open>as_smd_set_blocking(sindex, key, indexname, 0)\<close> is issued, and the reply is OK when
    the call reports success and the timeout failure when it does not.
\<close>

theorem sindex_create_decision:
  "(sindex_name_matches ns name items = [it] \<and> streq (item_key it) k \<longrightarrow>
      info_command_sindex_create_smd max_n set_ok items ns name k = (Reply_OK, None)) \<and>
   (sindex_name_matches ns name items = [it] \<and> \<not> streq (item_key it) k \<longrightarrow>
      info_command_sindex_create_smd max_n set_ok items ns name k =
        (Reply_FAIL AS_ERR_SINDEX_FOUND msg_different_definition, None)) \<and>
   (2 \<le> length (sindex_name_matches ns name items) \<longrightarrow>
      info_command_sindex_create_smd max_n set_ok items ns name k =
        (Reply_FAIL AS_ERR_SINDEX_FOUND msg_multiple_definitions, None)) \<and>
   (sindex_name_matches ns name items = [] \<and> \<not> sindex_key_present ns k items \<and>
    max_n \<le> sindex_count ns items \<longrightarrow>
      info_command_sindex_create_smd max_n set_ok items ns name k =
        (Reply_FAIL AS_ERR_SINDEX_MAX_COUNT ''already at sindex definition limit'', None)) \<and>
   (sindex_name_matches ns name items = [] \<and>
    (sindex_key_present ns k items \<or> sindex_count ns items < max_n) \<longrightarrow>
      info_command_sindex_create_smd max_n set_ok items ns name k =
        (if set_ok then Reply_OK else Reply_FAIL AS_ERR_TIMEOUT ''timeout'',
         Some (Smd_set_blocking AS_SMD_MODULE_SINDEX (cstr k) (cstr name) 0)))"
proof (intro conjI impI)
  assume "sindex_name_matches ns name items = [it] \<and> streq (item_key it) k"
  then show "info_command_sindex_create_smd max_n set_ok items ns name k = (Reply_OK, None)"
    using sindex_create_cases(1) by blast
next
  assume "sindex_name_matches ns name items = [it] \<and> \<not> streq (item_key it) k"
  then show "info_command_sindex_create_smd max_n set_ok items ns name k =
        (Reply_FAIL AS_ERR_SINDEX_FOUND msg_different_definition, None)"
    using sindex_create_cases(2) by blast
next
  assume "2 \<le> length (sindex_name_matches ns name items)"
  then show "info_command_sindex_create_smd max_n set_ok items ns name k =
        (Reply_FAIL AS_ERR_SINDEX_FOUND msg_multiple_definitions, None)"
    by (rule sindex_create_cases(3))
next
  assume "sindex_name_matches ns name items = [] \<and> \<not> sindex_key_present ns k items \<and>
    max_n \<le> sindex_count ns items"
  then show "info_command_sindex_create_smd max_n set_ok items ns name k =
        (Reply_FAIL AS_ERR_SINDEX_MAX_COUNT ''already at sindex definition limit'', None)"
    using sindex_create_cases(4) by blast
next
  assume "sindex_name_matches ns name items = [] \<and>
    (sindex_key_present ns k items \<or> sindex_count ns items < max_n)"
  then show "info_command_sindex_create_smd max_n set_ok items ns name k =
        (if set_ok then Reply_OK else Reply_FAIL AS_ERR_TIMEOUT ''timeout'',
         Some (Smd_set_blocking AS_SMD_MODULE_SINDEX (cstr k) (cstr name) 0))"
    using sindex_create_cases(5) by blast
qed

theorem sindex_create_decision_witness:
  "sindex_name_matches ''ns1'' ''idx'' [\<lparr>item_key = ''ns1|s|a||0|1'', item_value = Some ''idx''\<rparr>]
     = [\<lparr>item_key = ''ns1|s|a||0|1'', item_value = Some ''idx''\<rparr>] \<and>
   info_command_sindex_create_smd 256 True
     [\<lparr>item_key = ''ns1|s|a||0|1'', item_value = Some ''idx''\<rparr>] ''ns1'' ''idx'' ''ns1|s|a||0|1''
     = (Reply_OK, None) \<and>
   info_command_sindex_create_smd 256 True
     [\<lparr>item_key = ''ns1|s|a||0|1'', item_value = Some ''idx''\<rparr>] ''ns1'' ''idx'' ''ns1|s|b||0|1''
     = (Reply_FAIL AS_ERR_SINDEX_FOUND msg_different_definition, None) \<and>
   2 \<le> length (sindex_name_matches ''ns1'' ''idx'' two_same_name) \<and>
   info_command_sindex_create_smd 256 True two_same_name ''ns1'' ''idx'' ''ns1|s|c||0|1''
     = (Reply_FAIL AS_ERR_SINDEX_FOUND msg_multiple_definitions, None) \<and>
   sindex_name_matches ''ns1'' ''other'' two_same_name = [] \<and>
   \<not> sindex_key_present ''ns1'' ''ns1|s|c||0|1'' two_same_name \<and>
   2 \<le> sindex_count ''ns1'' two_same_name \<and>
   info_command_sindex_create_smd 2 True two_same_name ''ns1'' ''other'' ''ns1|s|c||0|1''
     = (Reply_FAIL AS_ERR_SINDEX_MAX_COUNT ''already at sindex definition limit'', None) \<and>
   sindex_count ''ns1'' two_same_name < 256 \<and>
   info_command_sindex_create_smd 256 True two_same_name ''ns1'' ''other'' ''ns1|s|c||0|1''
     = (Reply_OK, Some (Smd_set_blocking AS_SMD_MODULE_SINDEX ''ns1|s|c||0|1'' ''other'' 0))"
proof -
  let ?one = "[\<lparr>item_key = ''ns1|s|a||0|1'', item_value = Some ''idx''\<rparr>]"
  let ?it = "\<lparr>item_key = ''ns1|s|a||0|1'', item_value = Some ''idx''\<rparr>"
  have m1: "sindex_name_matches ''ns1'' ''idx'' ?one = [?it]"
    by (simp add: sindex_name_matches_def sindex_in_ns_def sindex_has_name_def streq_def
        cstr_def NUL_def)
  have e1: "streq (item_key ?it) ''ns1|s|a||0|1''" "\<not> streq (item_key ?it) ''ns1|s|b||0|1''"
    by (simp_all add: streq_def cstr_def NUL_def)
  have m2: "2 \<le> length (sindex_name_matches ''ns1'' ''idx'' two_same_name)"
    by (simp add: sindex_name_matches_def sindex_in_ns_def sindex_has_name_def streq_def
        cstr_def NUL_def two_same_name_def)
  have m0: "sindex_name_matches ''ns1'' ''other'' two_same_name = []"
    by (simp add: sindex_name_matches_def sindex_in_ns_def sindex_has_name_def streq_def
        cstr_def NUL_def two_same_name_def)
  have np: "\<not> sindex_key_present ''ns1'' ''ns1|s|c||0|1'' two_same_name"
    by (simp add: sindex_key_present_def sindex_in_ns_def streq_def cstr_def NUL_def
        two_same_name_def)
  have cnt: "sindex_count ''ns1'' two_same_name = 2"
    by (simp add: sindex_count_def sindex_in_ns_def cstr_def NUL_def two_same_name_def)
  have c: "cstr ''ns1|s|c||0|1'' = ''ns1|s|c||0|1''" "cstr ''other'' = ''other''"
    by (simp_all add: cstr_def NUL_def)
  show ?thesis
    using sindex_create_decision [where ns = "''ns1''" and name = "''idx''" and items = ?one
        and it = ?it and k = "''ns1|s|a||0|1''" and max_n = 256 and set_ok = True]
      sindex_create_decision [where ns = "''ns1''" and name = "''idx''" and items = ?one
        and it = ?it and k = "''ns1|s|b||0|1''" and max_n = 256 and set_ok = True]
      sindex_create_decision [where ns = "''ns1''" and name = "''idx''" and items = two_same_name
        and it = ?it and k = "''ns1|s|c||0|1''" and max_n = 256 and set_ok = True]
      sindex_create_decision [where ns = "''ns1''" and name = "''other''" and items = two_same_name
        and it = ?it and k = "''ns1|s|c||0|1''" and max_n = 2 and set_ok = True]
      sindex_create_decision [where ns = "''ns1''" and name = "''other''" and items = two_same_name
        and it = ?it and k = "''ns1|s|c||0|1''" and max_n = 256 and set_ok = True]
      m1 e1 m2 m0 np cnt c
    by simp
qed

subsection \<open>The cluster-stable command\<close>

lemma uint64_x_nonempty: "uint64_x n \<noteq> []"
  by (subst uint64_x.simps) simp

lemma cluster_stable_key_changed:
  assumes "migrations_allowed env" "cluster_stable_size env params = None"
    "cluster_stable_ignore_migrations params = Inr ign"
    "ign \<or> cluster_stable_migrations env params = None"
    "cluster_key_begin env \<noteq> cluster_key_end env"
  shows "info_command_cluster_stable env params =
           ''ERROR::unstable-cluster'' @ uint64_x (unat (cluster_key_begin env))"
    and "info_command_cluster_stable env params \<noteq> ''ERROR::unstable-cluster''"
proof -
  show a: "info_command_cluster_stable env params =
           ''ERROR::unstable-cluster'' @ uint64_x (unat (cluster_key_begin env))"
    using assms by (auto simp: info_command_cluster_stable_def Let_def)
  show "info_command_cluster_stable env params \<noteq> ''ERROR::unstable-cluster''"
    unfolding a using uint64_x_nonempty [of "unat (cluster_key_begin env)"] by simp
qed

text \<open>
  C5.  The claim asks for the reply body \<^verbatim>\<open>ERROR::unstable-cluster\<close> when the cluster key
  changed during the command.  The code appends that literal and then, for want of a
  \<^verbatim>\<open>return\<close>, the starting cluster key in hexadecimal.  In \<open>key_changed_env\<close>, with no
  parameters, nothing migrating and the key moving from 1 to 2, the reply body is the
  literal followed by \<^verbatim>\<open>1\<close>.
\<close>

theorem cluster_stable_key_changed_reply:
  "cluster_key_begin key_changed_env \<noteq> cluster_key_end key_changed_env \<and>
   remaining_migrations key_changed_env = 0 \<and>
   info_command_cluster_stable key_changed_env [] = ''ERROR::unstable-cluster1'' \<and>
   info_command_cluster_stable key_changed_env ''namespace=test'' = ''ERROR::unstable-cluster1''"
  by (simp add: info_command_cluster_stable_def key_changed_env_def cluster_stable_size_def
      cluster_stable_ignore_migrations_def cluster_stable_migrations_def
      as_info_parameter_get_def cstr_def NUL_def Let_def uint64_x.simps hex_digit_def)

subsection \<open>The worker pool\<close>

lemma decrease_result:
  "n \<le> n_info_threads p \<Longrightarrow>
   info_threads_decrease n p =
     p\<lparr>info_work_q := info_work_q p @ replicate (n_info_threads p - n) death_msg,
       n_info_threads := n\<rparr>"
proof (induction n p rule: info_threads_decrease.induct)
  case (1 n p)
  show ?case
  proof (cases "n_info_threads p > n")
    case True
    let ?p = "p\<lparr>info_work_q := info_work_q p @ [death_msg], n_info_threads := n_info_threads p - 1\<rparr>"
    have ih: "info_threads_decrease n ?p =
       ?p\<lparr>info_work_q := info_work_q ?p @ replicate (n_info_threads ?p - n) death_msg,
          n_info_threads := n\<rparr>"
      using True by (intro "1.IH") auto
    have r: "[death_msg] @ replicate (n_info_threads p - 1 - n) death_msg =
             replicate (n_info_threads p - n) death_msg"
      using True by (cases "n_info_threads p - n") (auto simp: Suc_diff_Suc)
    have "info_threads_decrease n p = info_threads_decrease n ?p"
      using True by (subst info_threads_decrease.simps) simp
    also have "\<dots> = p\<lparr>info_work_q := info_work_q p @ replicate (n_info_threads p - n) death_msg,
                        n_info_threads := n\<rparr>"
      unfolding ih using r by simp
    finally show ?thesis .
  next
    case False
    with "1.prems" have "n_info_threads p = n" by simp
    then show ?thesis by (subst info_threads_decrease.simps) simp
  qed
qed

lemma increase_result:
  "n_info_threads p \<le> n \<Longrightarrow>
   info_threads_increase n p =
     p\<lparr>live_workers := live_workers p + (n - n_info_threads p), n_info_threads := n\<rparr>"
proof (induction n p rule: info_threads_increase.induct)
  case (1 n p)
  show ?case
  proof (cases "n_info_threads p < n")
    case True
    let ?p = "p\<lparr>live_workers := live_workers p + 1, n_info_threads := n_info_threads p + 1\<rparr>"
    have ih: "info_threads_increase n ?p =
       ?p\<lparr>live_workers := live_workers ?p + (n - n_info_threads ?p), n_info_threads := n\<rparr>"
      using True by (intro "1.IH") auto
    have "info_threads_increase n p = info_threads_increase n ?p"
      using True by (subst info_threads_increase.simps) simp
    also have "\<dots> = p\<lparr>live_workers := live_workers p + (n - n_info_threads p),
                        n_info_threads := n\<rparr>"
      unfolding ih using True by simp
    finally show ?thesis .
  next
    case False
    with "1.prems" have "n_info_threads p = n" by simp
    then show ?thesis by (subst info_threads_increase.simps) simp
  qed
qed

lemma resize_shrink:
  "n \<le> n_info_threads p \<Longrightarrow>
   info_set_num_info_threads n p =
     p\<lparr>info_work_q := info_work_q p @ replicate (n_info_threads p - n) death_msg,
       n_info_threads := n\<rparr>"
  by (cases "n = n_info_threads p")
     (simp_all add: info_set_num_info_threads_def decrease_result increase_result)

lemma resize_grow:
  "n_info_threads p \<le> n \<Longrightarrow>
   info_set_num_info_threads n p =
     p\<lparr>live_workers := live_workers p + (n - n_info_threads p), n_info_threads := n\<rparr>"
  by (simp add: info_set_num_info_threads_def increase_result)

lemma sentinels_replicate:
  "length (filter (\<lambda>it. fd_h it = None) (q @ replicate k death_msg)) =
   length (filter (\<lambda>it. fd_h it = None) q) + k"
  by (simp add: death_msg_def)

lemma resize_inv: "pool_inv p \<Longrightarrow> pool_inv (info_set_num_info_threads n p)"
proof (cases "n \<le> n_info_threads p")
  case True
  assume "pool_inv p"
  then show ?thesis
    using True sentinels_replicate [of "info_work_q p" "n_info_threads p - n"]
    by (simp add: resize_shrink pool_inv_def pending_sentinels_def)
next
  case False
  assume "pool_inv p"
  then show ?thesis
    using False by (simp add: resize_grow pool_inv_def pending_sentinels_def)
qed

lemma resize_size: "n_info_threads (info_set_num_info_threads n p) = n"
  by (cases "n \<le> n_info_threads p") (simp_all add: resize_shrink resize_grow)

lemma pop_inv: "pool_inv p \<Longrightarrow> pool_inv (thr_info_fn_pop p)"
  by (auto simp: pool_inv_def pending_sentinels_def thr_info_fn_pop_def
      split: list.splits option.splits)

text \<open>
  The invariant holds at start-up and is kept by every request that arrives, every
  resize and every turn of a worker.
\<close>

lemma init_inv: "pool_inv (as_info_init_pool n)"
  by (simp add: pool_inv_def as_info_init_pool_def pending_sentinels_def)

lemma request_inv: "fd_h it \<noteq> None \<Longrightarrow> pool_inv p \<Longrightarrow> pool_inv (as_info it p)"
  by (simp add: pool_inv_def as_info_def pending_sentinels_def)

lemma pop_size: "n_info_threads (thr_info_fn_pop p) = n_info_threads p"
  by (simp add: thr_info_fn_pop_def split: list.splits option.splits)

lemma pop_queue:
  "pool_inv p \<Longrightarrow> info_work_q p = it # q \<Longrightarrow>
   info_work_q (thr_info_fn_pop p) = q \<or>
   (live_workers p = 0 \<and> thr_info_fn_pop p = p \<and> pending_sentinels p = 0)"
  by (auto simp: pool_inv_def pending_sentinels_def thr_info_fn_pop_def
      split: list.splits option.splits)

lemma pops_drained:
  "pool_inv p \<Longrightarrow> length (info_work_q p) \<le> k \<Longrightarrow>
   pending_sentinels ((thr_info_fn_pop ^^ k) p) = 0 \<and>
   pool_inv ((thr_info_fn_pop ^^ k) p) \<and>
   n_info_threads ((thr_info_fn_pop ^^ k) p) = n_info_threads p"
proof (induction k arbitrary: p)
  case 0
  then show ?case by (simp add: pending_sentinels_def)
next
  case (Suc k)
  have step: "(thr_info_fn_pop ^^ Suc k) p = (thr_info_fn_pop ^^ k) (thr_info_fn_pop p)"
    by (simp add: funpow_swap1)
  show ?case
  proof (cases "info_work_q p")
    case Nil
    then have "thr_info_fn_pop p = p" by (simp add: thr_info_fn_pop_def)
    then show ?thesis
      unfolding step using Suc.IH [of p] Suc.prems Nil by simp
  next
    case (Cons it q)
    from pop_queue [OF Suc.prems(1) Cons]
    show ?thesis
    proof
      assume e: "info_work_q (thr_info_fn_pop p) = q"
      then have "length (info_work_q (thr_info_fn_pop p)) \<le> k"
        using Suc.prems(2) Cons by simp
      from Suc.IH [OF pop_inv [OF Suc.prems(1)] this]
      show ?thesis unfolding step by (simp add: pop_size)
    next
      assume stuck: "live_workers p = 0 \<and> thr_info_fn_pop p = p \<and> pending_sentinels p = 0"
      then have stay: "(thr_info_fn_pop ^^ j) p = p" for j
        by (induction j) simp_all
      show ?thesis unfolding stay using stuck Suc.prems(1) by simp
    qed
  qed
qed

lemma drain_result:
  "pool_inv p \<Longrightarrow>
   live_workers (pool_drain p) = n_info_threads p \<and> pending_sentinels (pool_drain p) = 0"
  using pops_drained [of p "length (info_work_q p)"]
  by (simp add: pool_drain_def pool_inv_def)

text \<open>
  C6.  In a pool that satisfies the invariant (as the pool does from \<^verbatim>\<open>as_info_init\<close>
  on): shrinking to \<open>n\<close> appends exactly one termination message per worker to be removed
  and starts no thread; growing to \<open>n\<close> starts exactly the missing number of workers and
  queues nothing; a worker that dequeues a termination message ends, and the queue and
  the worker count change by exactly that one item and that one worker; and once the
  workers have taken what was queued after \<open>resize n\<close>, no termination message is pending
  and the number of live workers is \<open>n\<close>.
\<close>

theorem info_pool_resize:
  assumes "pool_inv p"
  shows "(n \<le> n_info_threads p \<longrightarrow>
            info_work_q (info_set_num_info_threads n p) =
              info_work_q p @ replicate (n_info_threads p - n) death_msg \<and>
            live_workers (info_set_num_info_threads n p) = live_workers p) \<and>
         (n_info_threads p \<le> n \<longrightarrow>
            info_work_q (info_set_num_info_threads n p) = info_work_q p \<and>
            live_workers (info_set_num_info_threads n p) =
              live_workers p + (n - n_info_threads p)) \<and>
         n_info_threads (info_set_num_info_threads n p) = n \<and>
         (info_work_q p = it # q \<and> fd_h it = None \<longrightarrow>
            0 < live_workers p \<and>
            thr_info_fn_pop p = p\<lparr>info_work_q := q, live_workers := live_workers p - 1\<rparr>) \<and>
         pending_sentinels (pool_drain (info_set_num_info_threads n p)) = 0 \<and>
         live_workers (pool_drain (info_set_num_info_threads n p)) = n"
proof (intro conjI impI)
  assume "n \<le> n_info_threads p"
  then show "info_work_q (info_set_num_info_threads n p) =
              info_work_q p @ replicate (n_info_threads p - n) death_msg"
    and "live_workers (info_set_num_info_threads n p) = live_workers p"
    by (simp_all add: resize_shrink)
next
  assume "n_info_threads p \<le> n"
  then show "info_work_q (info_set_num_info_threads n p) = info_work_q p"
    and "live_workers (info_set_num_info_threads n p) = live_workers p + (n - n_info_threads p)"
    by (simp_all add: resize_grow)
next
  show "n_info_threads (info_set_num_info_threads n p) = n" by (rule resize_size)
next
  assume h: "info_work_q p = it # q \<and> fd_h it = None"
  then show w: "0 < live_workers p"
    using assms by (simp add: pool_inv_def pending_sentinels_def)
  show "thr_info_fn_pop p = p\<lparr>info_work_q := q, live_workers := live_workers p - 1\<rparr>"
    using h w by (simp add: thr_info_fn_pop_def)
next
  have inv: "pool_inv (info_set_num_info_threads n p)" using assms by (rule resize_inv)
  from drain_result [OF inv]
  show "pending_sentinels (pool_drain (info_set_num_info_threads n p)) = 0"
    and "live_workers (pool_drain (info_set_num_info_threads n p)) = n"
    by (simp_all add: resize_size)
qed

theorem info_pool_resize_witness:
  "pool_inv (as_info_init_pool 8) \<and> 3 \<le> n_info_threads (as_info_init_pool 8) \<and>
   info_work_q (info_set_num_info_threads 3 (as_info_init_pool 8)) = replicate 5 death_msg \<and>
   live_workers (info_set_num_info_threads 3 (as_info_init_pool 8)) = 8 \<and>
   live_workers (pool_drain (info_set_num_info_threads 3 (as_info_init_pool 8))) = 3 \<and>
   pool_inv shrinking_pool \<and> n_info_threads shrinking_pool \<le> 5 \<and>
   live_workers (info_set_num_info_threads 5 shrinking_pool) = 6 \<and>
   info_work_q shrinking_pool = death_msg # [\<lparr>fd_h = Some 7, proto = ''build''\<rparr>] \<and>
   fd_h death_msg = None \<and>
   thr_info_fn_pop shrinking_pool =
     shrinking_pool\<lparr>info_work_q := [\<lparr>fd_h = Some 7, proto = ''build''\<rparr>], live_workers := 3\<rparr> \<and>
   live_workers (pool_drain (info_set_num_info_threads 5 shrinking_pool)) = 5"
proof -
  have i1: "pool_inv (as_info_init_pool 8)"
    by (simp add: pool_inv_def as_info_init_pool_def pending_sentinels_def)
  have i2: "pool_inv shrinking_pool"
    by (simp add: pool_inv_def shrinking_pool_def pending_sentinels_def death_msg_def)
  have q: "info_work_q shrinking_pool = death_msg # [\<lparr>fd_h = Some 7, proto = ''build''\<rparr>]"
    "fd_h death_msg = None" "n_info_threads shrinking_pool = 3" "live_workers shrinking_pool = 4"
    by (simp_all add: shrinking_pool_def death_msg_def)
  have s: "n_info_threads (as_info_init_pool 8) = 8" "info_work_q (as_info_init_pool 8) = []"
    "live_workers (as_info_init_pool 8) = 8"
    by (simp_all add: as_info_init_pool_def)
  show ?thesis
    using info_pool_resize [OF i1, of 3 death_msg "[]"]
      info_pool_resize [OF i2, of 5 death_msg "[\<lparr>fd_h = Some 7, proto = ''build''\<rparr>]"]
      i1 i2 q s
    by simp
qed

subsection \<open>memory-size\<close>





subsection \<open>The dispatch of config-set\<close>

lemma key_chain_first_key:
  "key_chain table params g =
     (case first_key table params of
        None \<Rightarrow> Rejected g
      | Some (k, h, v) \<Rightarrow> h v params g)"
  by (induction table) (auto split: prod.splits)

lemma first_key_none: "no_key_found table params \<Longrightarrow> first_key table params = None"
  by (induction table) (auto simp: no_key_found_def split: prod.splits)

lemma key_chain_no_key: "no_key_found table params \<Longrightarrow> key_chain table params g = Rejected g"
  by (simp add: key_chain_first_key first_key_none)

lemma reply_is: "fst (info_command_config_set_threadsafe env params g) =
                 reply_of (config_set_apply env params g)"
  by (cases "config_set_apply env params g")
     (simp_all add: info_command_config_set_threadsafe_def reply_of_def)

lemma reply_two: "reply_of r = ''ok'' \<or> reply_of r = ''error''"
  "(reply_of r = ''ok'') = applied_with r (\<lambda>c. True)"
  "(reply_of r = ''error'') = rejected_with r (\<lambda>c. True)"
  by (cases r; simp add: reply_of_def applied_with_def rejected_with_def)+

lemma context_names:
  "\<not> streq c ''service'' \<or> \<not> streq c ''network''"
  "\<not> streq c ''service'' \<or> \<not> streq c ''namespace''"
  "\<not> streq c ''network'' \<or> \<not> streq c ''namespace''"
  "\<not> streq c ''service'' \<or> \<not> streq c ''security''"
  "\<not> streq c ''network'' \<or> \<not> streq c ''security''"
  "\<not> streq c ''namespace'' \<or> \<not> streq c ''security''"
  "\<not> streq c ''service'' \<or> \<not> streq c ''xdr''"
  "\<not> streq c ''network'' \<or> \<not> streq c ''xdr''"
  "\<not> streq c ''namespace'' \<or> \<not> streq c ''xdr''"
  "\<not> streq c ''security'' \<or> \<not> streq c ''xdr''"
  by (auto simp: streq_def cstr_def NUL_def)

lemma context_cases:
  obtains rv c len where "as_info_parameter_get params ''context'' [] 1024 = (rv, c, len)"
  by (cases "as_info_parameter_get params ''context'' [] 1024") blast

lemma apply_no_context:
  "fst (as_info_parameter_get params ''context'' [] 1024) \<noteq> 0 \<Longrightarrow>
   config_set_apply env params g = Rejected g"
  by (rule context_cases [of params]) (simp add: config_set_apply_def)

lemma apply_unknown_context:
  "list_all (\<lambda>c. \<not> context_is params c) known_contexts \<Longrightarrow>
   config_set_apply env params g = Rejected g"
  by (rule context_cases [of params])
     (simp add: config_set_apply_def context_is_def known_contexts_def)

lemma apply_service:
  "context_is params ''service'' \<Longrightarrow>
   config_set_apply env params g = key_chain (service_keys env) params g"
  by (rule context_cases [of params]) (simp add: config_set_apply_def context_is_def)

lemma apply_network:
  "context_is params ''network'' \<Longrightarrow>
   config_set_apply env params g = key_chain (network_keys env) params g"
proof (rule context_cases [of params])
  fix rv c len
  assume h: "context_is params ''network''"
    and e: "as_info_parameter_get params ''context'' [] 1024 = (rv, c, len)"
  then have c: "rv = 0" "streq c ''network''" by (simp_all add: context_is_def)
  then have "\<not> streq c ''service''" using context_names(1) [of c] by blast
  then show ?thesis using e c by (simp add: config_set_apply_def)
qed

lemma apply_namespace_stanza:
  "context_is params ''namespace'' \<Longrightarrow>
   config_set_apply env params g = config_set_namespace env params g"
proof (rule context_cases [of params])
  fix rv c len
  assume h: "context_is params ''namespace''"
    and e: "as_info_parameter_get params ''context'' [] 1024 = (rv, c, len)"
  then have c: "rv = 0" "streq c ''namespace''" by (simp_all add: context_is_def)
  then have "\<not> streq c ''service''" "\<not> streq c ''network''"
    using context_names(2,3) [of c] by blast+
  then show ?thesis using e c by (simp add: config_set_apply_def)
qed

lemma apply_namespace:
  assumes "namespace_selected params g ix"
  shows "config_set_apply env params g = key_chain (namespace_keys env ix) params g"
proof -
  from assms have c: "context_is params ''namespace''"
    and s: "fst (as_info_parameter_get params ''set'' [] 1024) \<noteq> 0"
    by (simp_all add: namespace_selected_def)
  obtain rv ns_id len where i: "as_info_parameter_get params ''id'' [] 1024 = (rv, ns_id, len)"
    by (cases "as_info_parameter_get params ''id'' [] 1024") blast
  with assms have r: "rv = 0" "as_namespace_get_byname ns_id (namespaces g) = Some ix"
    by (simp_all add: namespace_selected_def)
  obtain rv' sn sl where t: "as_info_parameter_get params ''set'' [] 1024 = (rv', sn, sl)"
    by (cases "as_info_parameter_get params ''set'' [] 1024") blast
  with s have "rv' \<noteq> 0" by simp
  then have k: "config_set_namespace env params g = key_chain (namespace_keys env ix) params g"
    using i r t by (simp add: config_set_namespace_def)
  have a: "config_set_apply env params g = config_set_namespace env params g"
    using c by (rule apply_namespace_stanza)
  show ?thesis unfolding a k ..
qed

lemma apply_gated:
  assumes "enterprise_only env"
    and "context_is params ''security'' \<or> context_is params ''xdr''"
  shows "config_set_apply env params g = Rejected g"
proof (rule context_cases [of params])
  fix rv c len
  assume e: "as_info_parameter_get params ''context'' [] 1024 = (rv, c, len)"
  with assms(2) have c: "rv = 0" "streq c ''security'' \<or> streq c ''xdr''"
    by (auto simp: context_is_def)
  then have n: "\<not> streq c ''service''" "\<not> streq c ''network''" "\<not> streq c ''namespace''"
    using context_names(4-9) [of c] by blast+
  show ?thesis using e c n assms(1) by (auto simp: config_set_apply_def)
qed

lemma chain_selected:
  "first_key table params = Some (k, h, v) \<Longrightarrow> key_chain table params g = h v params g"
  by (simp add: key_chain_first_key)

subsection \<open>Histogram toggles\<close>

lemma is_false_not_true: "is_false v \<Longrightarrow> \<not> is_true v"
  by (cases "cstr v") (auto simp: is_true_def is_false_def strncmp_eq_def)

lemma cleared_empty: "histogram_empty (histogram_clear h)"
  by (simp add: histogram_empty_def histogram_clear_def list_all_iff)

lemma rescaled_empty: "histogram_empty (histogram_rescale s h)"
  by (simp add: histogram_empty_def histogram_rescale_def histogram_clear_def list_all_iff)

lemma svc_clear_empty: "list_all histogram_empty (hists (svc_hist_clear t g) t)"
  by (cases t) (simp_all add: svc_hist_clear_def list_all_iff cleared_empty rescaled_empty)

lemma svc_clear_flag: "hist_enabled (svc_hist_clear t g) = hist_enabled g"
  by (cases t) (simp_all add: svc_hist_clear_def)

lemma ns_clear_empty: "list_all histogram_empty (ns_hists (ns_hist_clear s t ns) t)"
  by (cases t) (simp_all add: ns_hist_clear_def list_all_iff cleared_empty rescaled_empty)

lemma ns_clear_flag: "ns_hist_enabled (ns_hist_clear s t ns) = ns_hist_enabled ns"
  by (cases t) (simp_all add: ns_hist_clear_def)

lemma svc_set_flag_props:
  "hist_enabled (svc_set_flag t b g) t = b"
  "hists (svc_set_flag t b g) = hists g"
  "hist_enabled g t \<Longrightarrow> svc_set_flag t True g = g"
  by (simp_all add: svc_set_flag_def fun_upd_idem)

lemma ns_clear_at_props:
  "ix < length (namespaces g) \<Longrightarrow> ns_flag ix t (ns_hist_clear_at ix t g) = ns_flag ix t g"
  "ix < length (namespaces g) \<Longrightarrow>
     list_all histogram_empty (ns_hists_of ix t (ns_hist_clear_at ix t g))"
  "length (namespaces (ns_hist_clear_at ix t g)) = length (namespaces g)"
  by (simp_all add: ns_hist_clear_at_def ns_flag_def ns_hists_of_def ns_clear_flag ns_clear_empty)

lemma ns_set_flag_at_props:
  "ix < length (namespaces g) \<Longrightarrow> ns_flag ix t (ns_set_flag_at ix t b g) = b"
  "map ns_hists (namespaces (ns_set_flag_at ix t b g)) = map ns_hists (namespaces g)"
  "ns_hists_of ix t (ns_set_flag_at ix t b g) = ns_hists_of ix t g"
  "length (namespaces (ns_set_flag_at ix t b g)) = length (namespaces g)"
  "ix < length (namespaces g) \<Longrightarrow> ns_flag ix t g \<Longrightarrow> ns_set_flag_at ix t True g = g"
proof -
  show "ix < length (namespaces g) \<Longrightarrow> ns_flag ix t (ns_set_flag_at ix t b g) = b"
    by (simp add: ns_set_flag_at_def ns_flag_def)
  show "map ns_hists (namespaces (ns_set_flag_at ix t b g)) = map ns_hists (namespaces g)"
    by (cases "ix < length (namespaces g)")
       (auto simp: ns_set_flag_at_def list_eq_iff_nth_eq nth_list_update)
  show "ns_hists_of ix t (ns_set_flag_at ix t b g) = ns_hists_of ix t g"
    by (cases "ix < length (namespaces g)")
       (simp_all add: ns_set_flag_at_def ns_hists_of_def list_update_beyond)
  show "length (namespaces (ns_set_flag_at ix t b g)) = length (namespaces g)"
    by (simp add: ns_set_flag_at_def)
  show "ix < length (namespaces g) \<Longrightarrow> ns_flag ix t g \<Longrightarrow> ns_set_flag_at ix t True g = g"
    by (simp add: ns_set_flag_at_def ns_flag_def fun_upd_idem)
qed

lemma svc_toggle_enable:
  "is_true v \<Longrightarrow> \<not> hist_enabled g t \<Longrightarrow>
   two_statements (svc_hist_toggle_states t v g)
     (\<lambda>g1. \<not> hist_enabled g1 t \<and> list_all histogram_empty (hists g1 t))
     (\<lambda>g2. hist_enabled g2 t \<and> list_all histogram_empty (hists g2 t) \<and>
            svc_hist_toggle t v params g = Applied g2)"
  by (simp add: two_statements_def svc_hist_toggle_states_def svc_hist_toggle_def
      svc_clear_flag svc_clear_empty svc_set_flag_props)

lemma svc_toggle_disable:
  "is_false v \<Longrightarrow>
   two_statements (svc_hist_toggle_states t v g)
     (\<lambda>g1. \<not> hist_enabled g1 t \<and> hists g1 = hists g)
     (\<lambda>g2. \<not> hist_enabled g2 t \<and> list_all histogram_empty (hists g2 t) \<and>
            svc_hist_toggle t v params g = Applied g2)"
  by (simp add: two_statements_def svc_hist_toggle_states_def svc_hist_toggle_def
      is_false_not_true svc_clear_flag svc_clear_empty svc_set_flag_props)

lemma svc_toggle_stay:
  "is_true v \<Longrightarrow> hist_enabled g t \<Longrightarrow>
   svc_hist_toggle_states t v g = Some [g] \<and> svc_hist_toggle t v params g = Applied g"
  by (simp add: svc_hist_toggle_states_def svc_hist_toggle_def svc_set_flag_props)

lemma ns_toggle_enable:
  assumes "ix < length (namespaces g)" and "is_true v" and "\<not> ns_flag ix t g"
  shows "two_statements (ns_hist_toggle_states ix t v g)
     (\<lambda>g1. \<not> ns_flag ix t g1 \<and> list_all histogram_empty (ns_hists_of ix t g1))
     (\<lambda>g2. ns_flag ix t g2 \<and> list_all histogram_empty (ns_hists_of ix t g2) \<and>
            ns_hist_toggle ix t v params g = Applied g2)"
proof -
  have off: "\<not> ns_hist_enabled (namespaces g ! ix) t"
    using assms(3) by (simp add: ns_flag_def)
  have s: "ns_hist_toggle_states ix t v g =
      Some [ns_hist_clear_at ix t g, ns_set_flag_at ix t True (ns_hist_clear_at ix t g)]"
    using assms(2) off by (simp add: ns_hist_toggle_states_def)
  show ?thesis
    using assms(1,3)
    by (simp add: s two_statements_def ns_hist_toggle_def ns_clear_at_props ns_set_flag_at_props)
qed

lemma ns_toggle_disable:
  assumes "ix < length (namespaces g)" and "is_false v"
  shows "two_statements (ns_hist_toggle_states ix t v g)
     (\<lambda>g1. \<not> ns_flag ix t g1 \<and> map ns_hists (namespaces g1) = map ns_hists (namespaces g))
     (\<lambda>g2. \<not> ns_flag ix t g2 \<and> list_all histogram_empty (ns_hists_of ix t g2) \<and>
            ns_hist_toggle ix t v params g = Applied g2)"
proof -
  have s: "ns_hist_toggle_states ix t v g =
      Some [ns_set_flag_at ix t False g, ns_hist_clear_at ix t (ns_set_flag_at ix t False g)]"
    using assms(2) by (simp add: ns_hist_toggle_states_def is_false_not_true)
  show ?thesis
    using assms(1)
    by (simp add: s two_statements_def ns_hist_toggle_def ns_clear_at_props ns_set_flag_at_props)
qed

lemma ns_toggle_stay:
  assumes "ix < length (namespaces g)" and "is_true v" and "ns_flag ix t g"
  shows "ns_hist_toggle_states ix t v g = Some [g] \<and> ns_hist_toggle ix t v params g = Applied g"
proof -
  have on: "ns_hist_enabled (namespaces g ! ix) t"
    using assms(3) by (simp add: ns_flag_def)
  have s: "ns_hist_toggle_states ix t v g = Some [g]"
    using assms on by (simp add: ns_hist_toggle_states_def ns_set_flag_at_props)
  show ?thesis by (simp add: s ns_hist_toggle_def)
qed

text \<open>The branch that config-set runs for the key of a toggle is the toggle's branch.\<close>

lemma first_key_in_table:
  "first_key table params = Some (k, h, v) \<Longrightarrow> (k, h) \<in> set table"
  by (induction table) (auto split: prod.splits if_splits)

lemma service_keys_distinct: "distinct (map fst (service_keys env))"
  by (simp add: service_keys_def)

lemma namespace_keys_distinct: "distinct (map fst (namespace_keys env ix))"
  by (simp add: namespace_keys_def)

lemma svc_toggle_in_table: "(svc_toggle_key t, svc_hist_toggle t) \<in> set (service_keys env)"
  by (cases t) (simp_all add: service_keys_def svc_toggle_key_def)

lemma ns_toggle_in_table: "(ns_toggle_key u, ns_hist_toggle ix u) \<in> set (namespace_keys env ix)"
  by (cases u) (simp_all add: namespace_keys_def ns_toggle_key_def)

lemma byname_bound: "as_namespace_get_byname n nss = Some ix \<Longrightarrow> ix < length nss"
  by (induction nss arbitrary: ix) (auto split: if_splits)

lemma namespace_selected_bound: "namespace_selected params g ix \<Longrightarrow> ix < length (namespaces g)"
  by (auto simp: namespace_selected_def split: prod.splits dest: byname_bound)

lemma svc_toggle_selected:
  assumes "context_is params ''service''"
    and "first_key (service_keys env) params = Some (svc_toggle_key t, h, v)"
  shows "config_set_apply env params g = svc_hist_toggle t v params g"
proof -
  have "(svc_toggle_key t, h) \<in> set (service_keys env)"
    using assms(2) by (rule first_key_in_table)
  then have "h = svc_hist_toggle t"
    using svc_toggle_in_table [of t env] service_keys_distinct [of env]
    by (meson eq_key_imp_eq_value)
  then show ?thesis
    using apply_service [OF assms(1), of env g] chain_selected [OF assms(2), of g] by simp
qed

lemma ns_toggle_selected:
  assumes "namespace_selected params g ix"
    and "first_key (namespace_keys env ix) params = Some (ns_toggle_key u, h, v)"
  shows "config_set_apply env params g = ns_hist_toggle ix u v params g"
proof -
  have "(ns_toggle_key u, h) \<in> set (namespace_keys env ix)"
    using assms(2) by (rule first_key_in_table)
  then have "h = ns_hist_toggle ix u"
    using ns_toggle_in_table [of u ix env] namespace_keys_distinct [of env ix]
    by (meson eq_key_imp_eq_value)
  then show ?thesis
    using apply_namespace [OF assms(1), of env] chain_selected [OF assms(2), of g] by simp
qed

text \<open>
  C8.  For every histogram toggle, \<open>t\<close> of the service context and \<open>u\<close> of a namespace.
  When config-set selects the key of the toggle it runs the toggle's branch.  On a true
  value with the flag off, the branch runs two statements: after the first the
  histograms of the toggle are empty and the flag is still off, after the second the flag
  is on and the histograms are still empty.  On a false value it runs two statements:
  after the first the flag is off and every histogram is as it was, after the second the
  flag is off and the histograms of the toggle are empty.  In both cases the branch
  succeeds in the state after the second statement.  On a true value with the flag
  already on, the branch succeeds and the only state it passes through is the one it
  started in: nothing is cleared.
\<close>

theorem hist_toggle_transitions:
  "(context_is params ''service'' \<and>
    first_key (service_keys env) params = Some (svc_toggle_key t, h, v) \<longrightarrow>
      config_set_apply env params g = svc_hist_toggle t v params g) \<and>
   (namespace_selected params g ix \<and>
    first_key (namespace_keys env ix) params = Some (ns_toggle_key u, h, v) \<longrightarrow>
      ix < length (namespaces g) \<and>
      config_set_apply env params g = ns_hist_toggle ix u v params g) \<and>
   (is_true v \<and> \<not> hist_enabled g t \<longrightarrow>
      two_statements (svc_hist_toggle_states t v g)
        (\<lambda>g1. \<not> hist_enabled g1 t \<and> list_all histogram_empty (hists g1 t))
        (\<lambda>g2. hist_enabled g2 t \<and> list_all histogram_empty (hists g2 t) \<and>
               svc_hist_toggle t v params g = Applied g2)) \<and>
   (is_false v \<longrightarrow>
      two_statements (svc_hist_toggle_states t v g)
        (\<lambda>g1. \<not> hist_enabled g1 t \<and> hists g1 = hists g)
        (\<lambda>g2. \<not> hist_enabled g2 t \<and> list_all histogram_empty (hists g2 t) \<and>
               svc_hist_toggle t v params g = Applied g2)) \<and>
   (is_true v \<and> hist_enabled g t \<longrightarrow>
      svc_hist_toggle_states t v g = Some [g] \<and> svc_hist_toggle t v params g = Applied g) \<and>
   (ix < length (namespaces g) \<and> is_true v \<and> \<not> ns_flag ix u g \<longrightarrow>
      two_statements (ns_hist_toggle_states ix u v g)
        (\<lambda>g1. \<not> ns_flag ix u g1 \<and> list_all histogram_empty (ns_hists_of ix u g1))
        (\<lambda>g2. ns_flag ix u g2 \<and> list_all histogram_empty (ns_hists_of ix u g2) \<and>
               ns_hist_toggle ix u v params g = Applied g2)) \<and>
   (ix < length (namespaces g) \<and> is_false v \<longrightarrow>
      two_statements (ns_hist_toggle_states ix u v g)
        (\<lambda>g1. \<not> ns_flag ix u g1 \<and> map ns_hists (namespaces g1) = map ns_hists (namespaces g))
        (\<lambda>g2. \<not> ns_flag ix u g2 \<and> list_all histogram_empty (ns_hists_of ix u g2) \<and>
               ns_hist_toggle ix u v params g = Applied g2)) \<and>
   (ix < length (namespaces g) \<and> is_true v \<and> ns_flag ix u g \<longrightarrow>
      ns_hist_toggle_states ix u v g = Some [g] \<and> ns_hist_toggle ix u v params g = Applied g)"
  using svc_toggle_selected [of params env t h v g] ns_toggle_selected [of params g ix env u h v]
    namespace_selected_bound [of params g ix]
    svc_toggle_enable [of v g t params] svc_toggle_disable [of v t g params]
    svc_toggle_stay [of v g t params]
    ns_toggle_enable [of ix g v u params] ns_toggle_disable [of ix g v u params]
    ns_toggle_stay [of ix g v u]
  by blast

theorem hist_toggle_transitions_witness:
  "context_is ''context=service;enable-hist-info=true'' ''service'' \<and>
   first_key (service_keys demo_set_env) ''context=service;enable-hist-info=true'' =
     Some (svc_toggle_key INFO_HIST, svc_hist_toggle INFO_HIST, ''true'') \<and>
   config_set_apply demo_set_env ''context=service;enable-hist-info=true'' demo_config =
     svc_hist_toggle INFO_HIST ''true'' ''context=service;enable-hist-info=true'' demo_config \<and>
   is_true ''true'' \<and> \<not> hist_enabled demo_config INFO_HIST \<and>
   two_statements (svc_hist_toggle_states INFO_HIST ''true'' demo_config)
     (\<lambda>g1. \<not> hist_enabled g1 INFO_HIST \<and> list_all histogram_empty (hists g1 INFO_HIST))
     (\<lambda>g2. hist_enabled g2 INFO_HIST \<and> list_all histogram_empty (hists g2 INFO_HIST) \<and>
            svc_hist_toggle INFO_HIST ''true'' ''context=service;enable-hist-info=true''
              demo_config = Applied g2) \<and>
   info_command_config_set_threadsafe demo_set_env ''context=service;enable-hist-info=true''
       demo_config =
     (''ok'',
      demo_config\<lparr>hists := (hists demo_config)
                      (INFO_HIST := [\<lparr>hist_scale = HIST_MILLISECONDS, hist_counts = [0, 0, 0]\<rparr>]),
                  hist_enabled := (hist_enabled demo_config)(INFO_HIST := True)\<rparr>) \<and>
   is_false ''no'' \<and>
   two_statements
     (svc_hist_toggle_states FABRIC_BENCHMARKS ''no'' (demo_config\<lparr>hist_enabled := (\<lambda>t. True)\<rparr>))
     (\<lambda>g1. \<not> hist_enabled g1 FABRIC_BENCHMARKS \<and> hists g1 = hists demo_config)
     (\<lambda>g2. \<not> hist_enabled g2 FABRIC_BENCHMARKS \<and>
            list_all histogram_empty (hists g2 FABRIC_BENCHMARKS) \<and>
            svc_hist_toggle FABRIC_BENCHMARKS ''no'' []
              (demo_config\<lparr>hist_enabled := (\<lambda>t. True)\<rparr>) = Applied g2) \<and>
   svc_hist_toggle_states FABRIC_BENCHMARKS ''no'' (demo_config\<lparr>hist_enabled := (\<lambda>t. True)\<rparr>) =
     Some [demo_config\<lparr>hist_enabled := (\<lambda>t. True)(FABRIC_BENCHMARKS := False)\<rparr>,
           demo_config\<lparr>hist_enabled := (\<lambda>t. True)(FABRIC_BENCHMARKS := False),
                       hists := (hists demo_config)
                         (FABRIC_BENCHMARKS :=
                            [\<lparr>hist_scale = HIST_MILLISECONDS, hist_counts = [0, 0, 0]\<rparr>])\<rparr>] \<and>
   hist_enabled (demo_config\<lparr>hist_enabled := (\<lambda>t. True)\<rparr>) INFO_HIST \<and>
   svc_hist_toggle_states INFO_HIST ''true'' (demo_config\<lparr>hist_enabled := (\<lambda>t. True)\<rparr>) =
     Some [demo_config\<lparr>hist_enabled := (\<lambda>t. True)\<rparr>] \<and>
   svc_hist_toggle INFO_HIST ''true'' [] (demo_config\<lparr>hist_enabled := (\<lambda>t. True)\<rparr>) =
     Applied (demo_config\<lparr>hist_enabled := (\<lambda>t. True)\<rparr>) \<and>
   namespace_selected ''context=namespace;id=test;enable-benchmarks-read=true'' demo_config 0 \<and>
   first_key (namespace_keys demo_set_env 0)
       ''context=namespace;id=test;enable-benchmarks-read=true'' =
     Some (ns_toggle_key READ_BENCHMARKS, ns_hist_toggle 0 READ_BENCHMARKS, ''true'') \<and>
   0 < length (namespaces demo_config) \<and>
   config_set_apply demo_set_env ''context=namespace;id=test;enable-benchmarks-read=true''
       demo_config =
     ns_hist_toggle 0 READ_BENCHMARKS ''true''
       ''context=namespace;id=test;enable-benchmarks-read=true'' demo_config \<and>
   \<not> ns_flag 0 READ_BENCHMARKS demo_config \<and>
   two_statements (ns_hist_toggle_states 0 READ_BENCHMARKS ''true'' demo_config)
     (\<lambda>g1. \<not> ns_flag 0 READ_BENCHMARKS g1 \<and>
            list_all histogram_empty (ns_hists_of 0 READ_BENCHMARKS g1))
     (\<lambda>g2. ns_flag 0 READ_BENCHMARKS g2 \<and>
            list_all histogram_empty (ns_hists_of 0 READ_BENCHMARKS g2) \<and>
            ns_hist_toggle 0 READ_BENCHMARKS ''true''
              ''context=namespace;id=test;enable-benchmarks-read=true'' demo_config =
                Applied g2) \<and>
   info_command_config_set_threadsafe demo_set_env
       ''context=namespace;id=test;enable-benchmarks-read=true'' demo_config =
     (''ok'',
      demo_config\<lparr>namespaces :=
        [demo_namespace
           \<lparr>ns_hists := (ns_hists demo_namespace)
              (READ_BENCHMARKS := [\<lparr>hist_scale = HIST_MILLISECONDS, hist_counts = [0, 0, 0]\<rparr>]),
            ns_hist_enabled := (ns_hist_enabled demo_namespace)(READ_BENCHMARKS := True)\<rparr>]\<rparr>) \<and>
   two_statements
     (ns_hist_toggle_states 0 PROXY_HIST ''no''
        (demo_config\<lparr>namespaces := [demo_namespace\<lparr>ns_hist_enabled := (\<lambda>t. True)\<rparr>]\<rparr>))
     (\<lambda>g1. \<not> ns_flag 0 PROXY_HIST g1 \<and>
            map ns_hists (namespaces g1) = map ns_hists (namespaces demo_config))
     (\<lambda>g2. \<not> ns_flag 0 PROXY_HIST g2 \<and> list_all histogram_empty (ns_hists_of 0 PROXY_HIST g2) \<and>
            ns_hist_toggle 0 PROXY_HIST ''no'' []
              (demo_config\<lparr>namespaces := [demo_namespace\<lparr>ns_hist_enabled := (\<lambda>t. True)\<rparr>]\<rparr>) =
                Applied g2) \<and>
   ns_hist_toggle_states 0 PROXY_HIST ''no''
       (demo_config\<lparr>namespaces := [demo_namespace\<lparr>ns_hist_enabled := (\<lambda>t. True)\<rparr>]\<rparr>) =
     Some [demo_config\<lparr>namespaces :=
             [demo_namespace\<lparr>ns_hist_enabled := (\<lambda>t. True)(PROXY_HIST := False)\<rparr>]\<rparr>,
           demo_config\<lparr>namespaces :=
             [demo_namespace
                \<lparr>ns_hist_enabled := (\<lambda>t. True)(PROXY_HIST := False),
                 ns_hists := (ns_hists demo_namespace)
                   (PROXY_HIST :=
                      [\<lparr>hist_scale = HIST_MILLISECONDS, hist_counts = [0, 0, 0]\<rparr>])\<rparr>]\<rparr>] \<and>
   ns_flag 0 READ_BENCHMARKS
     (demo_config\<lparr>namespaces := [demo_namespace\<lparr>ns_hist_enabled := (\<lambda>t. True)\<rparr>]\<rparr>) \<and>
   ns_hist_toggle_states 0 READ_BENCHMARKS ''true''
       (demo_config\<lparr>namespaces := [demo_namespace\<lparr>ns_hist_enabled := (\<lambda>t. True)\<rparr>]\<rparr>) =
     Some [demo_config\<lparr>namespaces := [demo_namespace\<lparr>ns_hist_enabled := (\<lambda>t. True)\<rparr>]\<rparr>] \<and>
   ns_hist_toggle 0 READ_BENCHMARKS ''true'' []
       (demo_config\<lparr>namespaces := [demo_namespace\<lparr>ns_hist_enabled := (\<lambda>t. True)\<rparr>]\<rparr>) =
     Applied (demo_config\<lparr>namespaces := [demo_namespace\<lparr>ns_hist_enabled := (\<lambda>t. True)\<rparr>]\<rparr>)"
proof -
  let ?pa = "''context=service;enable-hist-info=true''"
  let ?pd = "''context=namespace;id=test;enable-benchmarks-read=true''"
  let ?on = "demo_config\<lparr>hist_enabled := (\<lambda>t. True)\<rparr>"
  let ?non = "demo_config\<lparr>namespaces := [demo_namespace\<lparr>ns_hist_enabled := (\<lambda>t. True)\<rparr>]\<rparr>"
  note ev = as_info_parameter_get_def cstr_def NUL_def streq_def context_is_def
  note tg = svc_hist_toggle_def svc_hist_toggle_states_def svc_set_flag_def svc_hist_clear_def
    ns_hist_toggle_def ns_hist_toggle_states_def ns_set_flag_at_def ns_hist_clear_at_def
    ns_hist_clear_def as_config_histogram_scale_def histogram_clear_def histogram_rescale_def
    is_true_def is_false_def strncmp_eq_def
  have t: "is_true ''true''" "is_false ''no''"
    by (simp_all add: is_true_def is_false_def strncmp_eq_def cstr_def NUL_def)
  have ca: "context_is ?pa ''service''"
    by (simp add: ev)
  have ka: "first_key (service_keys demo_set_env) ?pa =
      Some (svc_toggle_key INFO_HIST, svc_hist_toggle INFO_HIST, ''true'')"
    by (simp add: service_keys_def svc_toggle_key_def ev)
  have nd: "namespace_selected ?pd demo_config 0"
    by (simp add: namespace_selected_def ev demo_config_def demo_namespace_def)
  have kd: "first_key (namespace_keys demo_set_env 0) ?pd =
      Some (ns_toggle_key READ_BENCHMARKS, ns_hist_toggle 0 READ_BENCHMARKS, ''true'')"
    by (simp add: namespace_keys_def ns_toggle_key_def ev)
  have d: "\<not> hist_enabled demo_config INFO_HIST" "hist_enabled ?on INFO_HIST"
    "hists ?on = hists demo_config" "0 < length (namespaces demo_config)"
    "0 < length (namespaces ?non)"
    "\<not> ns_flag 0 READ_BENCHMARKS demo_config" "ns_flag 0 READ_BENCHMARKS ?non"
    "map ns_hists (namespaces ?non) = map ns_hists (namespaces demo_config)"
    by (simp_all add: demo_config_def demo_namespace_def ns_flag_def)
  note a = hist_toggle_transitions [where params = ?pa and env = demo_set_env and t = INFO_HIST
      and h = "svc_hist_toggle INFO_HIST" and v = "''true''" and g = demo_config]
  note b = hist_toggle_transitions [where params = "[]" and t = FABRIC_BENCHMARKS
      and v = "''no''" and g = ?on]
  note c = hist_toggle_transitions [where params = "[]" and t = INFO_HIST
      and v = "''true''" and g = ?on]
  note dd = hist_toggle_transitions [where params = ?pd and env = demo_set_env and ix = 0
      and u = READ_BENCHMARKS and h = "ns_hist_toggle 0 READ_BENCHMARKS" and v = "''true''"
      and g = demo_config]
  note e = hist_toggle_transitions [where params = "[]" and ix = 0 and u = PROXY_HIST
      and v = "''no''" and g = ?non]
  note f = hist_toggle_transitions [where params = "[]" and ix = 0 and u = READ_BENCHMARKS
      and v = "''true''" and g = ?non]
  have ra: "config_set_apply demo_set_env ?pa demo_config =
      svc_hist_toggle INFO_HIST ''true'' ?pa demo_config"
    using a ca ka by blast
  have rb: "two_statements (svc_hist_toggle_states INFO_HIST ''true'' demo_config)
     (\<lambda>g1. \<not> hist_enabled g1 INFO_HIST \<and> list_all histogram_empty (hists g1 INFO_HIST))
     (\<lambda>g2. hist_enabled g2 INFO_HIST \<and> list_all histogram_empty (hists g2 INFO_HIST) \<and>
            svc_hist_toggle INFO_HIST ''true'' ?pa demo_config = Applied g2)"
    using a t(1) d(1) by blast
  have rc: "two_statements (svc_hist_toggle_states FABRIC_BENCHMARKS ''no'' ?on)
     (\<lambda>g1. \<not> hist_enabled g1 FABRIC_BENCHMARKS \<and> hists g1 = hists demo_config)
     (\<lambda>g2. \<not> hist_enabled g2 FABRIC_BENCHMARKS \<and>
            list_all histogram_empty (hists g2 FABRIC_BENCHMARKS) \<and>
            svc_hist_toggle FABRIC_BENCHMARKS ''no'' [] ?on = Applied g2)"
    using b t(2) unfolding d(3) by blast
  have rd: "svc_hist_toggle_states INFO_HIST ''true'' ?on = Some [?on] \<and>
      svc_hist_toggle INFO_HIST ''true'' [] ?on = Applied ?on"
    using c t(1) d(2) by blast
  have re: "config_set_apply demo_set_env ?pd demo_config =
      ns_hist_toggle 0 READ_BENCHMARKS ''true'' ?pd demo_config"
    using dd nd kd by blast
  have rf: "two_statements (ns_hist_toggle_states 0 READ_BENCHMARKS ''true'' demo_config)
     (\<lambda>g1. \<not> ns_flag 0 READ_BENCHMARKS g1 \<and>
            list_all histogram_empty (ns_hists_of 0 READ_BENCHMARKS g1))
     (\<lambda>g2. ns_flag 0 READ_BENCHMARKS g2 \<and>
            list_all histogram_empty (ns_hists_of 0 READ_BENCHMARKS g2) \<and>
            ns_hist_toggle 0 READ_BENCHMARKS ''true'' ?pd demo_config = Applied g2)"
    using dd t(1) d(4,6) by blast
  have rg: "two_statements (ns_hist_toggle_states 0 PROXY_HIST ''no'' ?non)
     (\<lambda>g1. \<not> ns_flag 0 PROXY_HIST g1 \<and>
            map ns_hists (namespaces g1) = map ns_hists (namespaces demo_config))
     (\<lambda>g2. \<not> ns_flag 0 PROXY_HIST g2 \<and> list_all histogram_empty (ns_hists_of 0 PROXY_HIST g2) \<and>
            ns_hist_toggle 0 PROXY_HIST ''no'' [] ?non = Applied g2)"
    using e t(2) d(5) unfolding d(8) by blast
  have rh: "ns_hist_toggle_states 0 READ_BENCHMARKS ''true'' ?non = Some [?non] \<and>
      ns_hist_toggle 0 READ_BENCHMARKS ''true'' [] ?non = Applied ?non"
    using f t(1) d(5,7) by blast
  have ha: "svc_hist_toggle INFO_HIST ''true'' ?pa demo_config =
     Applied
       (demo_config\<lparr>hists := (hists demo_config)
                       (INFO_HIST := [\<lparr>hist_scale = HIST_MILLISECONDS, hist_counts = [0, 0, 0]\<rparr>]),
                   hist_enabled := (hist_enabled demo_config)(INFO_HIST := True)\<rparr>)"
    by (simp add: tg cstr_def NUL_def demo_config_def demo_hist_def)
  have ea: "info_command_config_set_threadsafe demo_set_env ?pa demo_config =
     (''ok'',
      demo_config\<lparr>hists := (hists demo_config)
                      (INFO_HIST := [\<lparr>hist_scale = HIST_MILLISECONDS, hist_counts = [0, 0, 0]\<rparr>]),
                  hist_enabled := (hist_enabled demo_config)(INFO_HIST := True)\<rparr>)"
    unfolding info_command_config_set_threadsafe_def ra ha by simp
  have sb: "svc_hist_toggle_states FABRIC_BENCHMARKS ''no'' ?on =
     Some [demo_config\<lparr>hist_enabled := (\<lambda>t. True)(FABRIC_BENCHMARKS := False)\<rparr>,
           demo_config\<lparr>hist_enabled := (\<lambda>t. True)(FABRIC_BENCHMARKS := False),
                       hists := (hists demo_config)
                         (FABRIC_BENCHMARKS :=
                            [\<lparr>hist_scale = HIST_MILLISECONDS, hist_counts = [0, 0, 0]\<rparr>])\<rparr>]"
    by (simp add: tg cstr_def NUL_def demo_config_def demo_hist_def)
  have hd: "ns_hist_toggle 0 READ_BENCHMARKS ''true'' ?pd demo_config =
     Applied
       (demo_config\<lparr>namespaces :=
          [demo_namespace
             \<lparr>ns_hists := (ns_hists demo_namespace)
                (READ_BENCHMARKS := [\<lparr>hist_scale = HIST_MILLISECONDS, hist_counts = [0, 0, 0]\<rparr>]),
              ns_hist_enabled := (ns_hist_enabled demo_namespace)(READ_BENCHMARKS := True)\<rparr>]\<rparr>)"
    by (simp add: tg cstr_def NUL_def demo_config_def demo_namespace_def demo_hist_def)
  have ed: "info_command_config_set_threadsafe demo_set_env ?pd demo_config =
     (''ok'',
      demo_config\<lparr>namespaces :=
        [demo_namespace
           \<lparr>ns_hists := (ns_hists demo_namespace)
              (READ_BENCHMARKS := [\<lparr>hist_scale = HIST_MILLISECONDS, hist_counts = [0, 0, 0]\<rparr>]),
            ns_hist_enabled := (ns_hist_enabled demo_namespace)(READ_BENCHMARKS := True)\<rparr>]\<rparr>)"
    unfolding info_command_config_set_threadsafe_def re hd by simp
  have se: "ns_hist_toggle_states 0 PROXY_HIST ''no'' ?non =
     Some [demo_config\<lparr>namespaces :=
             [demo_namespace\<lparr>ns_hist_enabled := (\<lambda>t. True)(PROXY_HIST := False)\<rparr>]\<rparr>,
           demo_config\<lparr>namespaces :=
             [demo_namespace
                \<lparr>ns_hist_enabled := (\<lambda>t. True)(PROXY_HIST := False),
                 ns_hists := (ns_hists demo_namespace)
                   (PROXY_HIST :=
                      [\<lparr>hist_scale = HIST_MILLISECONDS, hist_counts = [0, 0, 0]\<rparr>])\<rparr>]\<rparr>]"
    by (simp add: tg cstr_def NUL_def demo_config_def demo_namespace_def demo_hist_def)
  show ?thesis
    by (intro conjI ca ka ra t d(1) rb ea rc sb d(2) rd [THEN conjunct1] rd [THEN conjunct2]
        nd kd d(4) re d(6) rf ed rg se d(7) rh [THEN conjunct1] rh [THEN conjunct2])
qed

subsection \<open>The reply of config-set\<close>

lemma branch_failures:
  "str_atoi env v = None \<Longrightarrow> set_info_threads env v params g = Rejected g"
  "str_atoi env v = Some n \<Longrightarrow> n < 1 \<or> max_info_threads env < n \<Longrightarrow>
     set_info_threads env v params g = Rejected g"
  "\<not> is_true v \<Longrightarrow> \<not> is_false v \<Longrightarrow> svc_hist_toggle t v params g = Rejected g"
  "\<not> is_true v \<Longrightarrow> \<not> is_false v \<Longrightarrow> ns_hist_toggle ix u v params g = Rejected g"
  "str_atoi_u64 env v = None \<Longrightarrow> ns_set_memory_size env v ns = Rejected ns"
  "enterprise_only env \<Longrightarrow> ee_gate env h v params g = Rejected g"
  "any_benchmarks_enabled g \<Longrightarrow> set_microsecond_histograms v params g = Rejected g"
  "\<not> is_true v \<Longrightarrow> \<not> is_false v \<Longrightarrow> set_microsecond_histograms v params g = Rejected g"
  by (auto simp: set_info_threads_def svc_hist_toggle_def svc_hist_toggle_states_def
      ns_hist_toggle_def ns_hist_toggle_states_def ns_set_memory_size_def ee_gate_def
      set_microsecond_histograms_def)

text \<open>
  The namespace stanza jumps to \<^verbatim>\<open>Error\<close> before any key is looked at when there is no
  \<^verbatim>\<open>id\<close>, when the namespace is unknown, when the name of the set is empty or too long, and
  when the set can be neither found nor created.
\<close>

lemma namespace_stanza_failures:
  "fst (as_info_parameter_get params ''id'' [] 1024) \<noteq> 0 \<Longrightarrow>
     config_set_namespace env params g = Rejected g"
  "as_info_parameter_get params ''id'' [] 1024 = (0, ns_id, len) \<Longrightarrow>
   as_namespace_get_byname ns_id (namespaces g) = None \<Longrightarrow>
     config_set_namespace env params g = Rejected g"
  "as_info_parameter_get params ''id'' [] 1024 = (0, ns_id, len) \<Longrightarrow>
   as_namespace_get_byname ns_id (namespaces g) = Some ix \<Longrightarrow>
   as_info_parameter_get params ''set'' [] 1024 = (0, set_name, set_len) \<Longrightarrow>
   set_len = 0 \<or> set_name_max_size env \<le> set_len \<Longrightarrow>
     config_set_namespace env params g = Rejected g"
  "as_info_parameter_get params ''id'' [] 1024 = (0, ns_id, len) \<Longrightarrow>
   as_namespace_get_byname ns_id (namespaces g) = Some ix \<Longrightarrow>
   as_info_parameter_get params ''set'' [] 1024 = (0, set_name, set_len) \<Longrightarrow>
   get_create_set env ix set_name g = None \<Longrightarrow>
     config_set_namespace env params g = Rejected g"
  by (auto simp: config_set_namespace_def split: prod.splits)

text \<open>
  The two branches that parse with \<^verbatim>\<open>atoi\<close> and \<^verbatim>\<open>atoll\<close> refuse nothing: whatever the
  value, they are applied and the reply is \<^verbatim>\<open>ok\<close>.
\<close>

lemma libc_parsed_branches_apply:
  "reply_of (on_namespace ix (ns_set_evict_tenths_pct env) v params g) = ''ok''"
  "reply_of (set_set_stop_writes_count env ix set_name v params g) = ''ok''"
  by (simp_all add: on_namespace_def ns_set_evict_tenths_pct_def set_set_stop_writes_count_def
      reply_of_def)

text \<open>
  The text that config-set appends is \<^verbatim>\<open>ok\<close> when the selected branch falls through to the
  end of the function and \<^verbatim>\<open>error\<close> when it jumps to \<^verbatim>\<open>Error\<close>, and nothing else is ever
  appended.  It is \<^verbatim>\<open>error\<close> when the context is missing or too long, when it is none of
  the five contexts, when no key of the context's table is found, and, in the community
  edition, for the contexts security and xdr.  When a key is found the reply is decided
  by that key's branch alone.
\<close>

lemma config_set_exits:
  "(let r = fst (info_command_config_set_threadsafe env params g) in
    (r = ''ok'' \<or> r = ''error'') \<and>
    (r = ''ok'') = applied_with (config_set_apply env params g) (\<lambda>c. True) \<and>
    (r = ''error'') = rejected_with (config_set_apply env params g) (\<lambda>c. True) \<and>
    (fst (as_info_parameter_get params ''context'' [] 1024) \<noteq> 0 \<longrightarrow> r = ''error'') \<and>
    (list_all (\<lambda>c. \<not> context_is params c) known_contexts \<longrightarrow> r = ''error'') \<and>
    (context_is params ''service'' \<and> no_key_found (service_keys env) params \<longrightarrow> r = ''error'') \<and>
    (context_is params ''network'' \<and> no_key_found (network_keys env) params \<longrightarrow> r = ''error'') \<and>
    (namespace_selected params g ix \<and> no_key_found (namespace_keys env ix) params \<longrightarrow>
       r = ''error'') \<and>
    (enterprise_only env \<and> (context_is params ''security'' \<or> context_is params ''xdr'') \<longrightarrow>
       r = ''error'') \<and>
    (context_is params ''service'' \<and> first_key (service_keys env) params = Some (k, h, v) \<longrightarrow>
       r = reply_of (h v params g)) \<and>
    (context_is params ''network'' \<and> first_key (network_keys env) params = Some (k, h, v) \<longrightarrow>
       r = reply_of (h v params g)) \<and>
    (namespace_selected params g ix \<and>
     first_key (namespace_keys env ix) params = Some (k, h, v) \<longrightarrow>
       r = reply_of (h v params g)))"
proof -
  show ?thesis
    unfolding Let_def reply_is
    using reply_two [of "config_set_apply env params g"]
      apply_no_context [of params env g] apply_unknown_context [of params env g]
      apply_service [of params env g] apply_network [of params env g]
      apply_namespace [of params g ix env] apply_gated [of env params g]
      key_chain_no_key [of "service_keys env" params g]
      key_chain_no_key [of "network_keys env" params g]
      key_chain_no_key [of "namespace_keys env ix" params g]
      chain_selected [of "service_keys env" params k h v g]
      chain_selected [of "network_keys env" params k h v g]
      chain_selected [of "namespace_keys env ix" params k h v g]
    by (intro conjI impI; (elim conjE)?; simp add: reply_of_def)
qed

text \<open>
  C2.  The claim asks for the reply \<^verbatim>\<open>error\<close> on every malformed value.  Two branches
  have no path to \<^verbatim>\<open>Error\<close>: \<^verbatim>\<open>evict-tenths-pct\<close> stores \<^verbatim>\<open>atoi\<close> of its value and
  \<^verbatim>\<open>stop-writes-count\<close> stores \<^verbatim>\<open>atoll\<close> of its value, so that every value, a number or
  not, is applied and answered \<^verbatim>\<open>ok\<close>; for \<^verbatim>\<open>abc\<close> the C library gives 0, and 0 replaces the
  configured 5.  The boolean branches compare a prefix of the value, so that \<^verbatim>\<open>nope\<close> is
  taken for \<^verbatim>\<open>no\<close>: \<^verbatim>\<open>enable-hist-info=nope\<close> clears the info histogram and is answered
  \<^verbatim>\<open>ok\<close>.  The sibling branches answer \<^verbatim>\<open>error\<close> to a malformed value: \<^verbatim>\<open>info-threads\<close> and
  \<^verbatim>\<open>memory-size\<close>, which parse with \<^verbatim>\<open>cf_str_atoi\<close> and \<^verbatim>\<open>cf_str_atoi_u64\<close>, and a toggle
  whose value starts with none of the four words.
\<close>

theorem config_set_malformed_value_ok:
  "info_command_config_set_threadsafe env
       ''context=namespace;id=test;evict-tenths-pct=abc'' demo_config =
     (''ok'',
      demo_config\<lparr>namespaces :=
        [demo_namespace\<lparr>evict_tenths_pct := word_of_int (libc_atoi env ''abc'')\<rparr>]\<rparr>) \<and>
   info_command_config_set_threadsafe demo_set_env
       ''context=namespace;id=test;evict-tenths-pct=abc'' demo_config =
     (''ok'', demo_config\<lparr>namespaces := [demo_namespace\<lparr>evict_tenths_pct := 0\<rparr>]\<rparr>) \<and>
   evict_tenths_pct demo_namespace = 5 \<and>
   fst (info_command_config_set_threadsafe demo_set_env
          ''context=namespace;id=test;set=s1;stop-writes-count=abc'' demo_config) = ''ok'' \<and>
   reply_of (on_namespace ix (ns_set_evict_tenths_pct env') v params g) = ''ok'' \<and>
   reply_of (set_set_stop_writes_count env' ix set_name v params g) = ''ok'' \<and>
   info_command_config_set_threadsafe env ''context=service;enable-hist-info=nope'' demo_config =
     (''ok'',
      demo_config\<lparr>hists := (hists demo_config)
        (INFO_HIST := [\<lparr>hist_scale = HIST_MILLISECONDS, hist_counts = [0, 0, 0]\<rparr>])\<rparr>) \<and>
   hists demo_config INFO_HIST = [\<lparr>hist_scale = HIST_MILLISECONDS, hist_counts = [5, 0, 2]\<rparr>] \<and>
   info_command_config_set_threadsafe demo_set_env ''context=service;info-threads=abc''
       demo_config = (''error'', demo_config) \<and>
   info_command_config_set_threadsafe demo_set_env
       ''context=namespace;id=test;memory-size=abc'' demo_config = (''error'', demo_config) \<and>
   info_command_config_set_threadsafe env ''context=service;enable-hist-info=maybe''
       demo_config = (''error'', demo_config)"
proof -
  note ev = info_command_config_set_threadsafe_def config_set_apply_def config_set_namespace_def
    as_info_parameter_get_def cstr_def NUL_def streq_def
  note tg = svc_hist_toggle_def svc_hist_toggle_states_def svc_set_flag_def svc_hist_clear_def
    histogram_clear_def is_true_def is_false_def strncmp_eq_def
  have e1: "info_command_config_set_threadsafe e
       ''context=namespace;id=test;evict-tenths-pct=abc'' demo_config =
     (''ok'',
      demo_config\<lparr>namespaces :=
        [demo_namespace\<lparr>evict_tenths_pct := word_of_int (libc_atoi e ''abc'')\<rparr>]\<rparr>)"
    for e :: "unit set_env"
    by (simp add: ev namespace_keys_def on_namespace_def ns_set_evict_tenths_pct_def
        demo_config_def demo_namespace_def)
  have e2: "info_command_config_set_threadsafe demo_set_env
       ''context=namespace;id=test;evict-tenths-pct=abc'' demo_config =
     (''ok'', demo_config\<lparr>namespaces := [demo_namespace\<lparr>evict_tenths_pct := 0\<rparr>]\<rparr>)"
    unfolding e1 by (simp add: demo_set_env_def)
  have e3: "evict_tenths_pct demo_namespace = 5"
    "hists demo_config INFO_HIST = [\<lparr>hist_scale = HIST_MILLISECONDS, hist_counts = [5, 0, 2]\<rparr>]"
    by (simp_all add: demo_namespace_def demo_config_def demo_hist_def)
  have e4: "fst (info_command_config_set_threadsafe demo_set_env
          ''context=namespace;id=test;set=s1;stop-writes-count=abc'' demo_config) = ''ok''"
    by (simp add: ev set_keys_def set_set_stop_writes_count_def demo_set_env_def
        demo_config_def demo_namespace_def)
  have e5: "reply_of (on_namespace ix (ns_set_evict_tenths_pct env') v params g) = ''ok''"
    by (simp add: on_namespace_def ns_set_evict_tenths_pct_def reply_of_def)
  have e6: "reply_of (set_set_stop_writes_count env' ix set_name v params g) = ''ok''"
    by (simp add: set_set_stop_writes_count_def reply_of_def)
  have e7: "info_command_config_set_threadsafe env ''context=service;enable-hist-info=nope''
       demo_config =
     (''ok'',
      demo_config\<lparr>hists := (hists demo_config)
        (INFO_HIST := [\<lparr>hist_scale = HIST_MILLISECONDS, hist_counts = [0, 0, 0]\<rparr>])\<rparr>)"
    by (simp add: ev service_keys_def tg demo_config_def demo_hist_def fun_upd_idem_iff)
  have e8: "info_command_config_set_threadsafe demo_set_env ''context=service;info-threads=abc''
       demo_config = (''error'', demo_config)"
    by (simp add: ev service_keys_def set_info_threads_def demo_set_env_def)
  have e9: "info_command_config_set_threadsafe demo_set_env
       ''context=namespace;id=test;memory-size=abc'' demo_config = (''error'', demo_config)"
    by (simp add: ev namespace_keys_def on_namespace_def ns_set_memory_size_def demo_set_env_def
        demo_config_def demo_namespace_def)
  have e10: "info_command_config_set_threadsafe env ''context=service;enable-hist-info=maybe''
       demo_config = (''error'', demo_config)"
    by (simp add: ev service_keys_def tg)
  show ?thesis
    by (intro conjI e1 [of env] e2 e3 e4 e5 e6 e7 e8 e9 e10)
qed

end
